theory Spec2Isabelle
  imports Main
begin

section \<open>Python values and the operations the source applies to them\<close>

text \<open>
  \<^verbatim>\<open>convert_json_to_graphviz\<close> receives \<^verbatim>\<open>json_data\<close>, "a JSON representation of the
  graph configuration": a tree of Python values. A \<^verbatim>\<open>dict\<close> is an association list
  in insertion order with string keys, read by its first entry for a key. \<open>JInt\<close> also
  stands for Python's \<^verbatim>\<open>bool\<close> (\<^verbatim>\<open>True\<close> is \<open>1\<close>, \<^verbatim>\<open>False\<close> is \<open>0\<close>): \<^verbatim>\<open>bool\<close> is
  a subclass of \<^verbatim>\<open>int\<close>, equal to it under \<^verbatim>\<open>==\<close>, and the function applies no
  operation that tells the two apart. Floating-point numbers are not modelled.
\<close>

datatype json =
    JNull
  | JInt int
  | JStr string
  | JList "json list"
  | JDict "(string \<times> json) list"

text \<open>
  The exceptions a call can end with. The first five are raised by the source itself:
  \<open>ImportError\<close> by its \<^verbatim>\<open>raise\<close>, the others by its unguarded subscripts, method calls
  and iterations. \<open>LibraryError c\<close> is an exception of class \<open>c\<close> raised inside the
  graphviz library. The last four are the validation errors the specification names;
  no statement of the source raises them.
\<close>

datatype error =
    ImportError
  | KeyError
  | IndexError
  | TypeError
  | AttributeError
  | LibraryError string
  | UnknownNodeReference string string
  | DuplicateNodeName string
  | MissingEntryPoint
  | MalformedEdge

fun is_validation_error :: "error \<Rightarrow> bool" where
  "is_validation_error (UnknownNodeReference n f) = True"
| "is_validation_error (DuplicateNodeName n) = True"
| "is_validation_error MissingEntryPoint = True"
| "is_validation_error MalformedEdge = True"
| "is_validation_error e = False"

text \<open>\<^verbatim>\<open>obj[key]\<close> for a string key: only a dict can be subscripted by a string.\<close>

fun getitem :: "json \<Rightarrow> string \<Rightarrow> error + json" where
  "getitem (JDict kvs) k = (case map_of kvs k of None \<Rightarrow> Inl KeyError | Some v \<Rightarrow> Inr v)"
| "getitem (JList xs) k = Inl TypeError"
| "getitem (JStr s) k = Inl TypeError"
| "getitem (JInt i) k = Inl TypeError"
| "getitem JNull k = Inl TypeError"

text \<open>
  \<^verbatim>\<open>obj[0]\<close>: the first element of a list, the first character of a string (a string
  of length one); a dict with string keys has no key \<open>0\<close>.
\<close>

fun getitem0 :: "json \<Rightarrow> error + json" where
  "getitem0 (JList []) = Inl IndexError"
| "getitem0 (JList (x # xs)) = Inr x"
| "getitem0 (JStr []) = Inl IndexError"
| "getitem0 (JStr (c # cs)) = Inr (JStr [c])"
| "getitem0 (JDict kvs) = Inl KeyError"
| "getitem0 (JInt i) = Inl TypeError"
| "getitem0 JNull = Inl TypeError"

text \<open>\<^verbatim>\<open>obj.get(key, default)\<close>: only a dict has the method.\<close>

fun get_method :: "json \<Rightarrow> string \<Rightarrow> json \<Rightarrow> error + json" where
  "get_method (JDict kvs) k dflt = Inr (case map_of kvs k of None \<Rightarrow> dflt | Some v \<Rightarrow> v)"
| "get_method (JList xs) k dflt = Inl AttributeError"
| "get_method (JStr s) k dflt = Inl AttributeError"
| "get_method (JInt i) k dflt = Inl AttributeError"
| "get_method JNull k dflt = Inl AttributeError"

text \<open>
  \<^verbatim>\<open>for x in obj\<close>: the elements of a list, the characters of a string, the keys of
  a dict, each in order; \<^verbatim>\<open>None\<close> and numbers are not iterable.
\<close>

fun iterate :: "json \<Rightarrow> error + json list" where
  "iterate (JList xs) = Inr xs"
| "iterate (JStr s) = Inr (map (\<lambda>c. JStr [c]) s)"
| "iterate (JDict kvs) = Inr (map (\<lambda>kv. JStr (fst kv)) kvs)"
| "iterate (JInt i) = Inl TypeError"
| "iterate JNull = Inl TypeError"

text \<open>\<^verbatim>\<open>isinstance(obj, list)\<close>.\<close>

fun isinstance_list :: "json \<Rightarrow> bool" where
  "isinstance_list (JList xs) = True"
| "isinstance_list v = False"

text \<open>
  \<^verbatim>\<open>a == b\<close>: values of different kinds are unequal, lists are equal elementwise, dicts
  are equal when they have as many keys and every key of the first has an equal value in
  the second, whatever the insertion order.
\<close>

function py_eq :: "json \<Rightarrow> json \<Rightarrow> bool" where
  "py_eq JNull b = (case b of JNull \<Rightarrow> True | _ \<Rightarrow> False)"
| "py_eq (JInt i) b = (case b of JInt j \<Rightarrow> i = j | _ \<Rightarrow> False)"
| "py_eq (JStr s) b = (case b of JStr t \<Rightarrow> s = t | _ \<Rightarrow> False)"
| "py_eq (JList xs) b = (case b of JList ys \<Rightarrow> list_all2 py_eq xs ys | _ \<Rightarrow> False)"
| "py_eq (JDict kvs) b =
     (case b of
        JDict kvs' \<Rightarrow>
          length kvs = length kvs' \<and>
          list_all (\<lambda>kv. case map_of kvs' (fst kv) of
                            None \<Rightarrow> False
                          | Some w \<Rightarrow> py_eq (snd kv) w) kvs
      | _ \<Rightarrow> False)"
  by pat_completeness auto
termination py_eq
proof (relation "measure (\<lambda>(a, b). size a)")
  show "wf (measure (\<lambda>(a, b). size a))"
    by simp
next
  fix xs :: "json list" and b :: json and ys :: "json list" and x :: json and y :: json
  assume "x \<in> set xs"
  then have "size x < Suc (size_list size xs)"
    by (induction xs) auto
  then show "((x, y), (JList xs, b)) \<in> measure (\<lambda>(a, b). size a)"
    by simp
next
  fix kvs :: "(string \<times> json) list" and b :: json and kvs' :: "(string \<times> json) list"
    and kv :: "string \<times> json" and w :: json
  assume "kv \<in> set kvs"
  then have "size (snd kv) < Suc (size_list (size_prod (\<lambda>k. 0) size) kvs)"
    by (induction kvs) auto
  then show "((snd kv, w), (JDict kvs, b)) \<in> measure (\<lambda>(a, b). size a)"
    by simp
qed

section \<open>The graphviz library\<close>

text \<open>
  Modelled from the spec: the graphviz package, which the source imports and which is
  not under \<^verbatim>\<open>src/\<close>. A \<^verbatim>\<open>graphviz.Digraph\<close> is the drawable-graph object of the
  specification (section 4.2), which receives the node and edge calls and keeps them in
  order in its \<open>body\<close>, together with the attributes it was created with. A node
  statement keeps the name and the keyword attributes of the call; the highlighted node
  of the specification is the one whose call passes \<^verbatim>\<open>shape="doublecircle"\<close>.
\<close>

type_synonym attrs = "(string \<times> string) list"

datatype stmt =
    NodeStmt json attrs
  | EdgeStmt json json

record digraph =
  comment :: string
  format :: string
  node_attr :: attrs
  body :: "stmt list"

text \<open>
  What the library raises is a parameter of the model: whether \<^verbatim>\<open>import graphviz\<close>
  succeeds, and the class of the exception, if any, with which the constructor refuses
  a format, \<^verbatim>\<open>node\<close> refuses a name and \<^verbatim>\<open>edge\<close> refuses a pair of end points. A call
  that is refused leaves the object as it was.
\<close>

record library =
  installed :: bool
  format_refused :: "string \<Rightarrow> string option"
  node_refused :: "json \<Rightarrow> string option"
  edge_refused :: "json \<Rightarrow> json \<Rightarrow> string option"

text \<open>
  Objects live in a store: a \<^verbatim>\<open>Digraph\<close> is created at a fresh address, and its
  methods update the object at the address they are called on.
\<close>

type_synonym addr = nat
type_synonym store = "digraph list"

definition Digraph :: "library \<Rightarrow> string \<Rightarrow> string \<Rightarrow> attrs \<Rightarrow> store \<Rightarrow> error + (addr \<times> store)" where
  "Digraph lib c fmt na s =
     (case format_refused lib fmt of
        Some x \<Rightarrow> Inl (LibraryError x)
      | None \<Rightarrow> Inr (length s, s @ [\<lparr>comment = c, format = fmt, node_attr = na, body = []\<rparr>]))"

definition append_stmt :: "addr \<Rightarrow> stmt \<Rightarrow> store \<Rightarrow> store" where
  "append_stmt g st s = s[g := (s ! g)\<lparr>body := body (s ! g) @ [st]\<rparr>]"

definition node :: "library \<Rightarrow> addr \<Rightarrow> json \<Rightarrow> attrs \<Rightarrow> store \<Rightarrow> error + store" where
  "node lib g name kw s =
     (case node_refused lib name of
        Some x \<Rightarrow> Inl (LibraryError x)
      | None \<Rightarrow> Inr (append_stmt g (NodeStmt name kw) s))"

definition edge :: "library \<Rightarrow> addr \<Rightarrow> json \<Rightarrow> json \<Rightarrow> store \<Rightarrow> error + store" where
  "edge lib g tail_name head_name s =
     (case edge_refused lib tail_name head_name of
        Some x \<Rightarrow> Inl (LibraryError x)
      | None \<Rightarrow> Inr (append_stmt g (EdgeStmt tail_name head_name) s))"

section \<open>convert\_json\_to\_graphviz\<close>

text \<open>
  A call ends by returning the address of the graph object or by raising; either way
  it leaves a store behind.
\<close>

datatype outcome =
    Returned addr
  | Raised error

text \<open>
  Lines 159 to 164: \<^verbatim>\<open>graph_config = json_data["text"][0]\<close>, then \<^verbatim>\<open>nodes\<close>,
  \<^verbatim>\<open>edges\<close> and \<^verbatim>\<open>entry_point\<close> read with \<^verbatim>\<open>get\<close> and the defaults \<^verbatim>\<open>[]\<close>, \<^verbatim>\<open>[]\<close>
  and \<^verbatim>\<open>None\<close>.
\<close>

definition graph_config :: "json \<Rightarrow> error + json" where
  "graph_config json_data =
     (case getitem json_data ''text'' of
        Inl e \<Rightarrow> Inl e
      | Inr t \<Rightarrow> getitem0 t)"

definition read_config :: "json \<Rightarrow> error + (json \<times> json \<times> json)" where
  "read_config json_data =
     (case graph_config json_data of
        Inl e \<Rightarrow> Inl e
      | Inr cfg \<Rightarrow>
          (case get_method cfg ''nodes'' (JList []) of
             Inl e \<Rightarrow> Inl e
           | Inr nodes \<Rightarrow>
               (case get_method cfg ''edges'' (JList []) of
                  Inl e \<Rightarrow> Inl e
                | Inr edges \<Rightarrow>
                    (case get_method cfg ''entry_point'' JNull of
                       Inl e \<Rightarrow> Inl e
                     | Inr entry_point \<Rightarrow> Inr (nodes, edges, entry_point)))))"

text \<open>
  Lines 166 to 170, the body of \<^verbatim>\<open>for node in nodes\<close>. The source evaluates
  \<^verbatim>\<open>node["node_name"]\<close> once for the comparison and once more for the call; the
  second evaluation gives the same value or the same exception as the first.
\<close>

fun node_loop :: "library \<Rightarrow> addr \<Rightarrow> json \<Rightarrow> json list \<Rightarrow> store \<Rightarrow> error option \<times> store" where
  "node_loop lib graph entry_point [] s = (None, s)"
| "node_loop lib graph entry_point (n # ns) s =
     (case getitem n ''node_name'' of
        Inl e \<Rightarrow> (Some e, s)
      | Inr name \<Rightarrow>
          (case (if py_eq name entry_point
                 then node lib graph name [(''shape'', ''doublecircle'')] s
                 else node lib graph name [] s) of
             Inl e \<Rightarrow> (Some e, s)
           | Inr s' \<Rightarrow> node_loop lib graph entry_point ns s'))"

text \<open>
  Lines 174 and 175, the body of \<^verbatim>\<open>for to_node in edge["to"]\<close>: \<^verbatim>\<open>edge["from"]\<close> is
  evaluated at every turn, so not at all when the list is empty.
\<close>

fun to_loop :: "library \<Rightarrow> addr \<Rightarrow> json \<Rightarrow> json list \<Rightarrow> store \<Rightarrow> error option \<times> store" where
  "to_loop lib graph e [] s = (None, s)"
| "to_loop lib graph e (to_node # ts) s =
     (case getitem e ''from'' of
        Inl x \<Rightarrow> (Some x, s)
      | Inr f \<Rightarrow>
          (case edge lib graph f to_node s of
             Inl x \<Rightarrow> (Some x, s)
           | Inr s' \<Rightarrow> to_loop lib graph e ts s'))"

text \<open>
  Lines 172 to 177, the body of \<^verbatim>\<open>for edge in edges\<close>. In the \<^verbatim>\<open>else\<close> branch the
  arguments are evaluated from the left: \<^verbatim>\<open>edge["from"]\<close>, then \<^verbatim>\<open>edge["to"]\<close>.
\<close>

definition edge_step :: "library \<Rightarrow> addr \<Rightarrow> json \<Rightarrow> store \<Rightarrow> error option \<times> store" where
  "edge_step lib graph e s =
     (case getitem e ''to'' of
        Inl x \<Rightarrow> (Some x, s)
      | Inr t \<Rightarrow>
          if isinstance_list t then
            (case iterate t of
               Inl x \<Rightarrow> (Some x, s)
             | Inr ts \<Rightarrow> to_loop lib graph e ts s)
          else
            (case getitem e ''from'' of
               Inl x \<Rightarrow> (Some x, s)
             | Inr f \<Rightarrow>
                 (case edge lib graph f t s of
                    Inl x \<Rightarrow> (Some x, s)
                  | Inr s' \<Rightarrow> (None, s'))))"

fun edge_loop :: "library \<Rightarrow> addr \<Rightarrow> json list \<Rightarrow> store \<Rightarrow> error option \<times> store" where
  "edge_loop lib graph [] s = (None, s)"
| "edge_loop lib graph (e # es) s =
     (case edge_step lib graph e s of
        (Some x, s') \<Rightarrow> (Some x, s')
      | (None, s') \<Rightarrow> edge_loop lib graph es s')"

text \<open>
  The whole function, lines 145 to 179: the import, the constructor, the configuration,
  the two loops, \<^verbatim>\<open>return graph\<close>.
\<close>

definition convert_json_to_graphviz :: "library \<Rightarrow> json \<Rightarrow> string \<Rightarrow> store \<Rightarrow> outcome \<times> store" where
  "convert_json_to_graphviz lib json_data fmt s =
     (if \<not> installed lib then (Raised ImportError, s)
      else
        case Digraph lib ''ScrapeGraphAI Generated Graph'' fmt
               [(''color'', ''lightblue2''), (''style'', ''filled'')] s of
          Inl e \<Rightarrow> (Raised e, s)
        | Inr (graph, s1) \<Rightarrow>
            (case read_config json_data of
               Inl e \<Rightarrow> (Raised e, s1)
             | Inr (nodes, edges, entry_point) \<Rightarrow>
                 (case iterate nodes of
                    Inl e \<Rightarrow> (Raised e, s1)
                  | Inr ns \<Rightarrow>
                      (case node_loop lib graph entry_point ns s1 of
                         (Some e, s2) \<Rightarrow> (Raised e, s2)
                       | (None, s2) \<Rightarrow>
                           (case iterate edges of
                              Inl e \<Rightarrow> (Raised e, s2)
                            | Inr es \<Rightarrow>
                                (case edge_loop lib graph es s2 of
                                   (Some e, s3) \<Rightarrow> (Raised e, s3)
                                 | (None, s3) \<Rightarrow> (Returned graph, s3)))))))"

section \<open>Observations and well-formed descriptions\<close>

text \<open>
  The calls of the specification's drawing interface, read off the body of a graph:
  \<^verbatim>\<open>add_node(name, highlighted)\<close> and \<^verbatim>\<open>add_edge(from, to)\<close>, each in the order made.
\<close>

fun highlighted :: "stmt \<Rightarrow> bool" where
  "highlighted (NodeStmt n kw) = ((''shape'', ''doublecircle'') \<in> set kw)"
| "highlighted (EdgeStmt f t) = False"

fun is_node :: "stmt \<Rightarrow> bool" where
  "is_node (NodeStmt n kw) = True"
| "is_node (EdgeStmt f t) = False"

fun node_calls :: "stmt list \<Rightarrow> (json \<times> bool) list" where
  "node_calls [] = []"
| "node_calls (NodeStmt n kw # sts) = (n, highlighted (NodeStmt n kw)) # node_calls sts"
| "node_calls (EdgeStmt f t # sts) = node_calls sts"

fun edge_calls :: "stmt list \<Rightarrow> (json \<times> json) list" where
  "edge_calls [] = []"
| "edge_calls (NodeStmt n kw # sts) = edge_calls sts"
| "edge_calls (EdgeStmt f t # sts) = (f, t) # edge_calls sts"

text \<open>
  What a call leaves: the graph it returned, if it returned one, and the objects it
  created in the store \<open>s\<close> it started from.
\<close>

fun returned_graph :: "outcome \<times> store \<Rightarrow> digraph option" where
  "returned_graph (Returned g, s') = Some (s' ! g)"
| "returned_graph (Raised e, s') = None"

fun raised :: "outcome \<times> store \<Rightarrow> error option" where
  "raised (Returned g, s') = None"
| "raised (Raised e, s') = Some e"

definition created :: "store \<Rightarrow> outcome \<times> store \<Rightarrow> digraph list" where
  "created s r = drop (length s) (snd r)"

text \<open>
  A library that can be used: it is installed, knows the format, and refuses no name
  that is a string.
\<close>

definition usable :: "library \<Rightarrow> string \<Rightarrow> bool" where
  "usable lib fmt \<longleftrightarrow>
     installed lib \<and> format_refused lib fmt = None \<and>
     (\<forall>n. node_refused lib (JStr n) = None) \<and>
     (\<forall>f t. edge_refused lib (JStr f) (JStr t) = None)"

text \<open>
  The library of the examples: installed, it knows the formats the specification
  names, and like graphviz it takes strings only as names (\<^verbatim>\<open>node\<close> matches the name
  against a regular expression, \<^verbatim>\<open>edge\<close> calls a string method on each end point).
\<close>

definition graphviz :: library where
  "graphviz =
     \<lparr>installed = True,
      format_refused = (\<lambda>fmt. if fmt \<in> set [''pdf'', ''svg'', ''png''] then None
                               else Some ''ValueError''),
      node_refused = (\<lambda>n. case n of JStr s \<Rightarrow> None | _ \<Rightarrow> Some ''TypeError''),
      edge_refused = (\<lambda>f t. case f of
                                JStr a \<Rightarrow> (case t of JStr b \<Rightarrow> None | _ \<Rightarrow> Some ''AttributeError'')
                              | _ \<Rightarrow> Some ''AttributeError'')\<rparr>"

text \<open>
  The shape the specification gives a description: \<open>ns\<close> is a list of node entries named
  \<open>names\<close>, in order; \<open>es\<close> is a list of edge entries with the sources and targets \<open>E\<close>,
  a target being one name or a sequence of names.
\<close>

datatype target =
    One string
  | Many "string list"

fun to_json :: "target \<Rightarrow> json" where
  "to_json (One t) = JStr t"
| "to_json (Many ts) = JList (map JStr ts)"

definition nodes_named :: "json list \<Rightarrow> string list \<Rightarrow> bool" where
  "nodes_named ns names = list_all2 (\<lambda>n name. getitem n ''node_name'' = Inr (JStr name)) ns names"

definition edges_from_to :: "json list \<Rightarrow> (string \<times> target) list \<Rightarrow> bool" where
  "edges_from_to es E =
     list_all2 (\<lambda>e ft. getitem e ''from'' = Inr (JStr (fst ft)) \<and>
                         getitem e ''to'' = Inr (to_json (snd ft))) es E"

text \<open>The targets of an edge entry, in order.\<close>

fun targets :: "target \<Rightarrow> string list" where
  "targets (One t) = [t]"
| "targets (Many ts) = ts"

text \<open>
  The statements the two loops append for such a description, the store after some
  statements were appended to the graph at \<open>g\<close>, and the graph as the constructor makes
  it.
\<close>

definition extend :: "addr \<Rightarrow> stmt list \<Rightarrow> store \<Rightarrow> store" where
  "extend g sts s = s[g := (s ! g)\<lparr>body := body (s ! g) @ sts\<rparr>]"

definition node_stmt :: "json \<Rightarrow> string \<Rightarrow> stmt" where
  "node_stmt entry_point n =
     NodeStmt (JStr n) (if py_eq (JStr n) entry_point then [(''shape'', ''doublecircle'')] else [])"

definition edge_stmts :: "string \<times> target \<Rightarrow> stmt list" where
  "edge_stmts ft = map (\<lambda>t. EdgeStmt (JStr (fst ft)) (JStr t)) (targets (snd ft))"

definition fresh_graph :: "string \<Rightarrow> digraph" where
  "fresh_graph fmt =
     \<lparr>comment = ''ScrapeGraphAI Generated Graph'', format = fmt,
      node_attr = [(''color'', ''lightblue2''), (''style'', ''filled'')], body = []\<rparr>"

section \<open>The loops on a well-formed description\<close>

lemma append_stmt_extend: "append_stmt g st s = extend g [st] s"
  by (simp add: append_stmt_def extend_def)

lemma extend_Nil: "extend g [] s = s"
  by (simp add: extend_def)

lemma length_extend: "length (extend g sts s) = length s"
  by (simp add: extend_def)

lemma extend_extend: "g < length s \<Longrightarrow> extend g b (extend g a s) = extend g (a @ b) s"
  by (simp add: extend_def)

lemma extend_fresh:
  "extend (length s) sts (s @ [d]) = s @ [d\<lparr>body := body d @ sts\<rparr>]"
  by (simp add: extend_def)

lemma node_loop_named:
  assumes "g < length s" and "\<And>n. node_refused lib (JStr n) = None"
    and "nodes_named ns names"
  shows "node_loop lib g ep ns s = (None, extend g (map (node_stmt ep) names) s)"
  using assms(3) assms(1)
proof (induction ns arbitrary: names s)
  case Nil
  then show ?case by (simp add: nodes_named_def extend_Nil)
next
  case (Cons n ns)
  from Cons.prems(1) obtain name rest where names: "names = name # rest"
    and n: "getitem n ''node_name'' = Inr (JStr name)" and rest: "nodes_named ns rest"
    by (auto simp: nodes_named_def list_all2_Cons1)
  have len: "g < length (extend g [node_stmt ep name] s)"
    using Cons.prems(2) by (simp add: length_extend)
  have step: "node_loop lib g ep (n # ns) s
      = node_loop lib g ep ns (extend g [node_stmt ep name] s)"
    using n assms(2) by (simp add: node_def append_stmt_extend node_stmt_def)
  show ?case
    unfolding step Cons.IH [OF rest len] names
    using Cons.prems(2) by (simp add: extend_extend)
qed

lemma to_loop_strings:
  assumes "g < length s" and "\<And>a b. edge_refused lib (JStr a) (JStr b) = None"
    and "getitem e ''from'' = Inr (JStr f)"
  shows "to_loop lib g e (map JStr ts) s
     = (None, extend g (map (\<lambda>t. EdgeStmt (JStr f) (JStr t)) ts) s)"
  using assms(1)
proof (induction ts arbitrary: s)
  case Nil
  then show ?case by (simp add: extend_Nil)
next
  case (Cons t ts)
  have len: "g < length (extend g [EdgeStmt (JStr f) (JStr t)] s)"
    using Cons.prems by (simp add: length_extend)
  have step: "to_loop lib g e (map JStr (t # ts)) s
      = to_loop lib g e (map JStr ts) (extend g [EdgeStmt (JStr f) (JStr t)] s)"
    using assms(2,3) by (simp add: edge_def append_stmt_extend)
  show ?case
    unfolding step Cons.IH [OF len]
    using Cons.prems by (simp add: extend_extend)
qed

lemma edge_step_from_to:
  assumes "g < length s" and "\<And>a b. edge_refused lib (JStr a) (JStr b) = None"
    and "getitem e ''from'' = Inr (JStr (fst ft))"
    and "getitem e ''to'' = Inr (to_json (snd ft))"
  shows "edge_step lib g e s = (None, extend g (edge_stmts ft) s)"
proof (cases "snd ft")
  case (One t)
  then show ?thesis
    using assms(2,3,4)
    by (simp add: edge_step_def edge_def append_stmt_extend edge_stmts_def)
next
  case (Many ts)
  then show ?thesis
    using assms(4) to_loop_strings [OF assms(1) assms(2) assms(3), of ts]
    by (simp add: edge_step_def edge_stmts_def)
qed

lemma edge_loop_from_to:
  assumes "g < length s" and "\<And>a b. edge_refused lib (JStr a) (JStr b) = None"
    and "edges_from_to es E"
  shows "edge_loop lib g es s = (None, extend g (concat (map edge_stmts E)) s)"
  using assms(3) assms(1)
proof (induction es arbitrary: E s)
  case Nil
  then show ?case by (simp add: edges_from_to_def extend_Nil)
next
  case (Cons e es)
  from Cons.prems(1) obtain ft rest where E: "E = ft # rest"
    and f: "getitem e ''from'' = Inr (JStr (fst ft))"
    and t: "getitem e ''to'' = Inr (to_json (snd ft))"
    and rest: "edges_from_to es rest"
    by (auto simp: edges_from_to_def list_all2_Cons1)
  have len: "g < length (extend g (edge_stmts ft) s)"
    using Cons.prems(2) by (simp add: length_extend)
  have step: "edge_loop lib g (e # es) s = edge_loop lib g es (extend g (edge_stmts ft) s)"
    using edge_step_from_to [OF Cons.prems(2) assms(2) f t] by simp
  show ?case
    unfolding step Cons.IH [OF rest len] E
    using Cons.prems(2) by (simp add: extend_extend)
qed

lemma convert_well_formed:
  assumes "usable lib fmt"
    and "read_config json_data = Inr (JList ns, JList es, ep)"
    and "nodes_named ns names" and "edges_from_to es E"
  shows "convert_json_to_graphviz lib json_data fmt s
     = (Returned (length s),
        s @ [(fresh_graph fmt)\<lparr>body := map (node_stmt ep) names @ concat (map edge_stmts E)\<rparr>])"
proof -
  let ?s1 = "s @ [fresh_graph fmt]"
  let ?s2 = "s @ [(fresh_graph fmt)\<lparr>body := map (node_stmt ep) names\<rparr>]"
  have inst: "installed lib"
    and nr: "\<And>n. node_refused lib (JStr n) = None"
    and er: "\<And>a b. edge_refused lib (JStr a) (JStr b) = None"
    using assms(1) by (simp_all add: usable_def)
  have b: "body (fresh_graph fmt) = []"
    by (simp add: fresh_graph_def)
  have D: "Digraph lib ''ScrapeGraphAI Generated Graph'' fmt
             [(''color'', ''lightblue2''), (''style'', ''filled'')] s = Inr (length s, ?s1)"
    using assms(1) by (simp add: Digraph_def usable_def fresh_graph_def)
  have "node_loop lib (length s) ep ns ?s1
      = (None, extend (length s) (map (node_stmt ep) names) ?s1)"
    by (rule node_loop_named [OF _ nr assms(3)]) simp
  then have nl: "node_loop lib (length s) ep ns ?s1 = (None, ?s2)"
    by (simp add: extend_fresh b)
  have "edge_loop lib (length s) es ?s2
      = (None, extend (length s) (concat (map edge_stmts E)) ?s2)"
    by (rule edge_loop_from_to [OF _ er assms(4)]) simp
  then have el: "edge_loop lib (length s) es ?s2
      = (None, s @ [(fresh_graph fmt)\<lparr>body := map (node_stmt ep) names @ concat (map edge_stmts E)\<rparr>])"
    by (simp add: extend_fresh)
  show ?thesis
    by (simp add: convert_json_to_graphviz_def inst D assms(2) nl el)
qed

section \<open>The loops on any input\<close>

text \<open>
  Whatever the input, a loop ends with an outcome and a list of appended statements that
  do not depend on the store, and it touches the graph object only.
\<close>

lemma node_loop_any:
  "\<exists>r sts. (\<forall>e. r = Some e \<longrightarrow> \<not> is_validation_error e) \<and>
     (\<forall>g s. g < length s \<longrightarrow> node_loop lib g ep ns s = (r, extend g sts s))"
proof (induction ns)
  case Nil
  have "\<forall>g s. g < length s \<longrightarrow> node_loop lib g ep [] s = (None, extend g [] s)"
    by (simp add: extend_Nil)
  then show ?case by blast
next
  case (Cons n ns)
  then obtain r sts where r: "\<And>e. r = Some e \<Longrightarrow> \<not> is_validation_error e"
    and run: "\<And>g s. g < length s \<Longrightarrow> node_loop lib g ep ns s = (r, extend g sts s)"
    by blast
  show ?case
  proof (cases "getitem n ''node_name''")
    case (Inl e)
    then have "\<not> is_validation_error e"
      by (cases n) (auto split: option.splits)
    moreover have "\<forall>g s. g < length s \<longrightarrow> node_loop lib g ep (n # ns) s = (Some e, extend g [] s)"
      using Inl by (simp add: extend_Nil)
    ultimately show ?thesis by blast
  next
    case (Inr name)
    let ?kw = "if py_eq name ep then [(''shape'', ''doublecircle'')] else []"
    show ?thesis
    proof (cases "node_refused lib name")
      case (Some x)
      have "\<forall>g s. g < length s \<longrightarrow>
          node_loop lib g ep (n # ns) s = (Some (LibraryError x), extend g [] s)"
        using Inr Some by (simp add: node_def extend_Nil)
      moreover have "\<not> is_validation_error (LibraryError x)" by simp
      ultimately show ?thesis by blast
    next
      case None
      have "\<forall>g s. g < length s \<longrightarrow>
          node_loop lib g ep (n # ns) s = (r, extend g (NodeStmt name ?kw # sts) s)"
      proof (intro allI impI)
        fix g :: addr and s :: store
        assume g: "g < length s"
        have "node_loop lib g ep (n # ns) s
            = node_loop lib g ep ns (extend g [NodeStmt name ?kw] s)"
          using Inr None by (simp add: node_def append_stmt_extend)
        also have "\<dots> = (r, extend g sts (extend g [NodeStmt name ?kw] s))"
          using g by (intro run) (simp add: length_extend)
        finally show "node_loop lib g ep (n # ns) s = (r, extend g (NodeStmt name ?kw # sts) s)"
          using g by (simp add: extend_extend)
      qed
      with r show ?thesis by blast
    qed
  qed
qed

lemma getitem_error: "getitem v k = Inl e \<Longrightarrow> \<not> is_validation_error e"
  by (cases v) (auto split: option.splits)

lemma getitem0_error: "getitem0 v = Inl e \<Longrightarrow> \<not> is_validation_error e"
  by (induction v rule: getitem0.induct) auto

lemma get_method_error: "get_method v k d = Inl e \<Longrightarrow> \<not> is_validation_error e"
  by (cases v) auto

lemma iterate_error: "iterate v = Inl e \<Longrightarrow> \<not> is_validation_error e"
  by (cases v) auto

lemma to_loop_any:
  "\<exists>r sts. (\<forall>x. r = Some x \<longrightarrow> \<not> is_validation_error x) \<and>
     (\<forall>g s. g < length s \<longrightarrow> to_loop lib g e ts s = (r, extend g sts s))"
proof (induction ts)
  case Nil
  have "\<forall>g s. g < length s \<longrightarrow> to_loop lib g e [] s = (None, extend g [] s)"
    by (simp add: extend_Nil)
  then show ?case by blast
next
  case (Cons t ts)
  then obtain r sts where r: "\<And>x. r = Some x \<Longrightarrow> \<not> is_validation_error x"
    and run: "\<And>g s. g < length s \<Longrightarrow> to_loop lib g e ts s = (r, extend g sts s)"
    by blast
  show ?case
  proof (cases "getitem e ''from''")
    case (Inl x)
    have "\<forall>g s. g < length s \<longrightarrow> to_loop lib g e (t # ts) s = (Some x, extend g [] s)"
      using Inl by (simp add: extend_Nil)
    with getitem_error [OF Inl] show ?thesis by blast
  next
    case (Inr f)
    show ?thesis
    proof (cases "edge_refused lib f t")
      case (Some x)
      have "\<forall>g s. g < length s \<longrightarrow>
          to_loop lib g e (t # ts) s = (Some (LibraryError x), extend g [] s)"
        using Inr Some by (simp add: edge_def extend_Nil)
      moreover have "\<not> is_validation_error (LibraryError x)" by simp
      ultimately show ?thesis by blast
    next
      case None
      have "\<forall>g s. g < length s \<longrightarrow>
          to_loop lib g e (t # ts) s = (r, extend g (EdgeStmt f t # sts) s)"
      proof (intro allI impI)
        fix g :: addr and s :: store
        assume g: "g < length s"
        have "to_loop lib g e (t # ts) s = to_loop lib g e ts (extend g [EdgeStmt f t] s)"
          using Inr None by (simp add: edge_def append_stmt_extend)
        also have "\<dots> = (r, extend g sts (extend g [EdgeStmt f t] s))"
          using g by (intro run) (simp add: length_extend)
        finally show "to_loop lib g e (t # ts) s = (r, extend g (EdgeStmt f t # sts) s)"
          using g by (simp add: extend_extend)
      qed
      with r show ?thesis by blast
    qed
  qed
qed

lemma edge_step_any:
  "\<exists>r sts. (\<forall>x. r = Some x \<longrightarrow> \<not> is_validation_error x) \<and>
     (\<forall>g s. g < length s \<longrightarrow> edge_step lib g e s = (r, extend g sts s))"
proof (cases "getitem e ''to''")
  case (Inl x)
  have "\<forall>g s. g < length s \<longrightarrow> edge_step lib g e s = (Some x, extend g [] s)"
    using Inl by (simp add: edge_step_def extend_Nil)
  with getitem_error [OF Inl] show ?thesis by blast
next
  case (Inr t)
  show ?thesis
  proof (cases "isinstance_list t")
    case True
    then obtain ts where t: "t = JList ts"
      by (cases t) auto
    obtain r sts where r: "\<And>x. r = Some x \<Longrightarrow> \<not> is_validation_error x"
      and run: "\<And>g s. g < length s \<Longrightarrow> to_loop lib g e ts s = (r, extend g sts s)"
      using to_loop_any [of lib e ts] by blast
    have "\<forall>g s. g < length s \<longrightarrow> edge_step lib g e s = (r, extend g sts s)"
      using Inr t run by (simp add: edge_step_def)
    with r show ?thesis by blast
  next
    case False
    show ?thesis
    proof (cases "getitem e ''from''")
      case (Inl x)
      have "\<forall>g s. g < length s \<longrightarrow> edge_step lib g e s = (Some x, extend g [] s)"
        using Inl Inr False by (simp add: edge_step_def extend_Nil)
      with getitem_error [OF Inl] show ?thesis by blast
    next
      case f: (Inr f)
      show ?thesis
      proof (cases "edge_refused lib f t")
        case (Some x)
        have "\<forall>g s. g < length s \<longrightarrow>
            edge_step lib g e s = (Some (LibraryError x), extend g [] s)"
          using Inr False f Some by (simp add: edge_step_def edge_def extend_Nil)
        moreover have "\<not> is_validation_error (LibraryError x)" by simp
        ultimately show ?thesis by blast
      next
        case None
        have "\<forall>g s. g < length s \<longrightarrow> edge_step lib g e s = (None, extend g [EdgeStmt f t] s)"
          using Inr False f None by (simp add: edge_step_def edge_def append_stmt_extend)
        then show ?thesis by blast
      qed
    qed
  qed
qed

lemma edge_loop_any:
  "\<exists>r sts. (\<forall>x. r = Some x \<longrightarrow> \<not> is_validation_error x) \<and>
     (\<forall>g s. g < length s \<longrightarrow> edge_loop lib g es s = (r, extend g sts s))"
proof (induction es)
  case Nil
  have "\<forall>g s. g < length s \<longrightarrow> edge_loop lib g [] s = (None, extend g [] s)"
    by (simp add: extend_Nil)
  then show ?case by blast
next
  case (Cons e es)
  then obtain r sts where r: "\<And>x. r = Some x \<Longrightarrow> \<not> is_validation_error x"
    and run: "\<And>g s. g < length s \<Longrightarrow> edge_loop lib g es s = (r, extend g sts s)"
    by blast
  obtain r1 sts1 where r1: "\<And>x. r1 = Some x \<Longrightarrow> \<not> is_validation_error x"
    and run1: "\<And>g s. g < length s \<Longrightarrow> edge_step lib g e s = (r1, extend g sts1 s)"
    using edge_step_any [of lib e] by blast
  show ?case
  proof (cases r1)
    case (Some x)
    have "\<forall>g s. g < length s \<longrightarrow> edge_loop lib g (e # es) s = (Some x, extend g sts1 s)"
      using run1 Some by simp
    with r1 [OF Some] show ?thesis by blast
  next
    case None
    have "\<forall>g s. g < length s \<longrightarrow> edge_loop lib g (e # es) s = (r, extend g (sts1 @ sts) s)"
    proof (intro allI impI)
      fix g :: addr and s :: store
      assume g: "g < length s"
      have "edge_loop lib g (e # es) s = edge_loop lib g es (extend g sts1 s)"
        using run1 [OF g] None by simp
      also have "\<dots> = (r, extend g sts (extend g sts1 s))"
        using g by (intro run) (simp add: length_extend)
      finally show "edge_loop lib g (e # es) s = (r, extend g (sts1 @ sts) s)"
        using g by (simp add: extend_extend)
    qed
    with r show ?thesis by blast
  qed
qed

lemma read_config_error: "read_config d = Inl e \<Longrightarrow> \<not> is_validation_error e"
  by (auto simp: read_config_def graph_config_def split: sum.splits
      dest: getitem_error getitem0_error get_method_error)

lemma convert_any:
  "(\<exists>e. \<not> is_validation_error e \<and>
        (\<forall>s. convert_json_to_graphviz lib d fmt s = (Raised e, s))) \<or>
   (\<exists>e sts. \<not> is_validation_error e \<and>
        (\<forall>s. convert_json_to_graphviz lib d fmt s
              = (Raised e, s @ [(fresh_graph fmt)\<lparr>body := sts\<rparr>]))) \<or>
   (\<exists>sts. \<forall>s. convert_json_to_graphviz lib d fmt s
              = (Returned (length s), s @ [(fresh_graph fmt)\<lparr>body := sts\<rparr>]))"
proof -
  let ?A = "\<lambda>e. \<forall>s. convert_json_to_graphviz lib d fmt s = (Raised e, s)"
  let ?B = "\<lambda>e sts. \<forall>s. convert_json_to_graphviz lib d fmt s
              = (Raised e, s @ [(fresh_graph fmt)\<lparr>body := sts\<rparr>])"
  let ?C = "\<lambda>sts. \<forall>s. convert_json_to_graphviz lib d fmt s
              = (Returned (length s), s @ [(fresh_graph fmt)\<lparr>body := sts\<rparr>])"
  have A: "\<not> is_validation_error e \<Longrightarrow> ?A e \<Longrightarrow> ?thesis" for e
    by blast
  have B: "\<not> is_validation_error e \<Longrightarrow> ?B e sts \<Longrightarrow> ?thesis" for e sts
    by blast
  have C: "?C sts \<Longrightarrow> ?thesis" for sts
    by blast
  have b: "(fresh_graph fmt)\<lparr>body := []\<rparr> = fresh_graph fmt"
    by (simp add: fresh_graph_def)
  show ?thesis
  proof (cases "installed lib")
    case False
    then have "?A ImportError"
      by (simp add: convert_json_to_graphviz_def)
    then show ?thesis by (rule A [rotated]) simp
  next
    case inst: True
    show ?thesis
    proof (cases "format_refused lib fmt")
      case (Some x)
      then have "?A (LibraryError x)"
        using inst by (simp add: convert_json_to_graphviz_def Digraph_def)
      then show ?thesis by (rule A [rotated]) simp
    next
      case None
      have D: "Digraph lib ''ScrapeGraphAI Generated Graph'' fmt
             [(''color'', ''lightblue2''), (''style'', ''filled'')] s
           = Inr (length s, s @ [fresh_graph fmt])" for s
        using None by (simp add: Digraph_def fresh_graph_def)
      show ?thesis
      proof (cases "read_config d")
        case (Inl e)
        then have "?B e []"
          using inst by (simp add: convert_json_to_graphviz_def D b)
        with read_config_error [OF Inl] show ?thesis by (rule B)
      next
        case (Inr cfg)
        then obtain nodes edges ep where cfg: "read_config d = Inr (nodes, edges, ep)"
          by (cases cfg) auto
        show ?thesis
        proof (cases "iterate nodes")
          case (Inl e)
          then have "?B e []"
            using inst cfg by (simp add: convert_json_to_graphviz_def D b)
          with iterate_error [OF Inl] show ?thesis by (rule B)
        next
          case ns: (Inr ns)
          obtain r sts where r: "\<And>e. r = Some e \<Longrightarrow> \<not> is_validation_error e"
            and run: "\<And>g s. g < length s \<Longrightarrow> node_loop lib g ep ns s = (r, extend g sts s)"
            using node_loop_any [of lib ep ns] by blast
          have nl: "node_loop lib (length s) ep ns (s @ [fresh_graph fmt])
              = (r, s @ [(fresh_graph fmt)\<lparr>body := sts\<rparr>])" for s
            using run [of "length s" "s @ [fresh_graph fmt]"]
            by (simp add: extend_fresh fresh_graph_def)
          show ?thesis
          proof (cases r)
            case (Some e)
            then have "?B e sts"
              using inst cfg ns nl by (simp add: convert_json_to_graphviz_def D)
            with r [OF Some] show ?thesis by (rule B)
          next
            case r_None: None
            show ?thesis
            proof (cases "iterate edges")
              case (Inl e)
              then have "?B e sts"
                using inst cfg ns nl r_None by (simp add: convert_json_to_graphviz_def D)
              with iterate_error [OF Inl] show ?thesis by (rule B)
            next
              case es: (Inr es)
              obtain r' sts' where r': "\<And>e. r' = Some e \<Longrightarrow> \<not> is_validation_error e"
                and run': "\<And>g s. g < length s \<Longrightarrow> edge_loop lib g es s = (r', extend g sts' s)"
                using edge_loop_any [of lib es] by blast
              have el: "edge_loop lib (length s) es (s @ [(fresh_graph fmt)\<lparr>body := sts\<rparr>])
                  = (r', s @ [(fresh_graph fmt)\<lparr>body := sts @ sts'\<rparr>])" for s
                using run' [of "length s" "s @ [(fresh_graph fmt)\<lparr>body := sts\<rparr>]"]
                by (simp add: extend_fresh)
              show ?thesis
              proof (cases r')
                case (Some e)
                then have "?B e (sts @ sts')"
                  using inst cfg ns nl r_None es el by (simp add: convert_json_to_graphviz_def D)
                with r' [OF Some] show ?thesis by (rule B)
              next
                case None
                then have "?C (sts @ sts')"
                  using inst cfg ns nl r_None es el by (simp add: convert_json_to_graphviz_def D)
                then show ?thesis by (rule C)
              qed
            qed
          qed
        qed
      qed
    qed
  qed
qed

section \<open>The calls on a returned graph\<close>

lemma node_calls_append: "node_calls (a @ b) = node_calls a @ node_calls b"
  by (induction a rule: node_calls.induct) auto

lemma edge_calls_append: "edge_calls (a @ b) = edge_calls a @ edge_calls b"
  by (induction a rule: edge_calls.induct) auto

lemma node_calls_node_stmts:
  "node_calls (map (node_stmt ep) names) = map (\<lambda>n. (JStr n, py_eq (JStr n) ep)) names"
  by (induction names) (auto simp: node_stmt_def)

lemma edge_calls_node_stmts: "edge_calls (map (node_stmt ep) names) = []"
  by (induction names) (auto simp: node_stmt_def)

lemma node_calls_edge_stmts: "node_calls (concat (map edge_stmts E)) = []"
proof (induction E)
  case Nil
  show ?case by simp
next
  case (Cons ft E)
  have "node_calls (map (\<lambda>t. EdgeStmt f (JStr t)) ts) = []" for f ts
    by (induction ts) auto
  with Cons show ?case
    by (simp add: node_calls_append edge_stmts_def)
qed

lemma edge_calls_edge_stmt: 
  "edge_calls (edge_stmts ft) = map (\<lambda>t. (JStr (fst ft), JStr t)) (targets (snd ft))"
proof -
  have "edge_calls (map (\<lambda>t. EdgeStmt f (JStr t)) ts) = map (\<lambda>t. (f, JStr t)) ts" for f ts
    by (induction ts) auto
  then show ?thesis
    by (simp add: edge_stmts_def)
qed

lemma edge_calls_edge_stmts:
  "edge_calls (concat (map edge_stmts E))
     = concat (map (\<lambda>ft. map (\<lambda>t. (JStr (fst ft), JStr t)) (targets (snd ft))) E)"
  by (induction E) (auto simp: edge_calls_append edge_calls_edge_stmt)

lemma filter_is_node_node_stmts: "filter is_node (map (node_stmt ep) names) = map (node_stmt ep) names"
  by (induction names) (auto simp: node_stmt_def)

lemma filter_is_node_edge_stmts: "filter is_node (concat (map edge_stmts E)) = []"
  by (induction E) (auto simp: edge_stmts_def)

lemma well_formed_result:
  assumes "usable lib fmt"
    and "read_config json_data = Inr (JList ns, JList es, ep)"
    and "nodes_named ns names" and "edges_from_to es E"
  shows "returned_graph (convert_json_to_graphviz lib json_data fmt s)
       = Some ((fresh_graph fmt)\<lparr>body := map (node_stmt ep) names @ concat (map edge_stmts E)\<rparr>)"
    and "raised (convert_json_to_graphviz lib json_data fmt s) = None"
  by (simp_all add: convert_well_formed [OF assms])

lemma one_highlighted:
  "distinct names \<Longrightarrow> entry \<in> set names \<Longrightarrow>
     filter snd (map (\<lambda>n. (JStr n, n = entry)) names) = [(JStr entry, True)]"
proof (induction names)
  case Nil
  then show ?case by simp
next
  case (Cons n names)
  show ?case
  proof (cases "n = entry")
    case True
    with Cons.prems have "entry \<notin> set names" by simp
    then have "filter snd (map (\<lambda>n. (JStr n, n = entry)) names) = []"
      by (induction names) auto
    with True show ?thesis by simp
  next
    case False
    with Cons show ?thesis by simp
  qed
qed

lemma read_config_dict:
  assumes "graph_config json_data = Inr (JDict cfg)"
    and "get_method (JDict cfg) ''nodes'' (JList []) = Inr nodes"
    and "get_method (JDict cfg) ''edges'' (JList []) = Inr edges"
  shows "read_config json_data
       = Inr (nodes, edges, case map_of cfg ''entry_point'' of None \<Rightarrow> JNull | Some v \<Rightarrow> v)"
  using assms by (simp add: read_config_def)

section \<open>An edge entry of any shape\<close>

lemma to_loop_accepted:
  assumes "getitem e ''from'' = Inr f"
    and "\<forall>h \<in> set hs. edge_refused lib f h = None" and "g < length s"
  shows "to_loop lib g e hs s = (None, extend g (map (EdgeStmt f) hs) s)"
  using assms(2,3)
proof (induction hs arbitrary: s)
  case Nil
  then show ?case by (simp add: extend_Nil)
next
  case (Cons h hs)
  have len: "g < length (extend g [EdgeStmt f h] s)"
    using Cons.prems(2) by (simp add: length_extend)
  have step: "to_loop lib g e (h # hs) s = to_loop lib g e hs (extend g [EdgeStmt f h] s)"
    using assms(1) Cons.prems(1) by (simp add: edge_def append_stmt_extend)
  have rest: "\<forall>h \<in> set hs. edge_refused lib f h = None"
    using Cons.prems(1) by simp
  show ?case
    unfolding step Cons.IH [OF rest len]
    using Cons.prems(2) by (simp add: extend_extend)
qed

lemma to_loop_refused:
  assumes "getitem e ''from'' = Inr f"
    and "\<forall>h \<in> set acc. edge_refused lib f h = None"
    and "edge_refused lib f h = Some x" and "g < length s"
  shows "to_loop lib g e (acc @ h # hs2) s
       = (Some (LibraryError x), extend g (map (EdgeStmt f) acc) s)"
  using assms(2,4)
proof (induction acc arbitrary: s)
  case Nil
  then show ?case
    using assms(1,3) by (simp add: edge_def extend_Nil)
next
  case (Cons a acc)
  have len: "g < length (extend g [EdgeStmt f a] s)"
    using Cons.prems(2) by (simp add: length_extend)
  have step: "to_loop lib g e ((a # acc) @ h # hs2) s
      = to_loop lib g e (acc @ h # hs2) (extend g [EdgeStmt f a] s)"
    using assms(1) Cons.prems(1) by (simp add: edge_def append_stmt_extend)
  have rest: "\<forall>h \<in> set acc. edge_refused lib f h = None"
    using Cons.prems(1) by simp
  show ?case
    unfolding step Cons.IH [OF rest len]
    using Cons.prems(2) by (simp add: extend_extend)
qed

lemma edge_step_to_loop:
  assumes "getitem e ''from'' = Inr f" and "getitem e ''to'' = Inr t"
  shows "edge_step lib g e s = to_loop lib g e (case t of JList ts \<Rightarrow> ts | _ \<Rightarrow> [t]) s"
  using assms by (cases t) (simp_all add: edge_step_def split: sum.splits)

lemma edge_loop_append:
  "edge_loop lib g (es1 @ es2) s
     = (case edge_loop lib g es1 s of
          (Some x, s') \<Rightarrow> (Some x, s')
        | (None, s') \<Rightarrow> edge_loop lib g es2 s')"
  by (induction es1 arbitrary: s) (auto split: prod.splits option.splits)

lemma raised_no_validation_error:
  assumes "raised (convert_json_to_graphviz lib json_data fmt s) = Some e"
  shows "\<not> is_validation_error e"
  using convert_any [of lib json_data fmt]
proof (elim disjE exE conjE)
  fix x
  assume "\<not> is_validation_error x"
    and "\<forall>s. convert_json_to_graphviz lib json_data fmt s = (Raised x, s)"
  with assms show ?thesis by simp
next
  fix x sts
  assume "\<not> is_validation_error x"
    and "\<forall>s. convert_json_to_graphviz lib json_data fmt s
           = (Raised x, s @ [(fresh_graph fmt)\<lparr>body := sts\<rparr>])"
  with assms show ?thesis by simp
next
  fix sts
  assume "\<forall>s. convert_json_to_graphviz lib json_data fmt s
           = (Returned (length s), s @ [(fresh_graph fmt)\<lparr>body := sts\<rparr>])"
  with assms show ?thesis by simp
qed

lemma convert_up_to_edge:
  assumes "usable lib fmt"
    and "read_config json_data = Inr (JList ns, JList (es1 @ e # es2), ep)"
    and "nodes_named ns names" and "edges_from_to es1 E1"
  shows "convert_json_to_graphviz lib json_data fmt s
     = (case edge_step lib (length s) e
              (s @ [(fresh_graph fmt)\<lparr>body := map (node_stmt ep) names @ concat (map edge_stmts E1)\<rparr>]) of
          (Some x, s') \<Rightarrow> (Raised x, s')
        | (None, s') \<Rightarrow>
            (case edge_loop lib (length s) es2 s' of
               (Some x, s'') \<Rightarrow> (Raised x, s'')
             | (None, s'') \<Rightarrow> (Returned (length s), s'')))"
proof -
  let ?s1 = "s @ [fresh_graph fmt]"
  let ?s2 = "s @ [(fresh_graph fmt)\<lparr>body := map (node_stmt ep) names\<rparr>]"
  let ?s3 = "s @ [(fresh_graph fmt)\<lparr>body := map (node_stmt ep) names @ concat (map edge_stmts E1)\<rparr>]"
  have inst: "installed lib"
    and nr: "\<And>n. node_refused lib (JStr n) = None"
    and er: "\<And>a b. edge_refused lib (JStr a) (JStr b) = None"
    using assms(1) by (simp_all add: usable_def)
  have b: "body (fresh_graph fmt) = []"
    by (simp add: fresh_graph_def)
  have D: "Digraph lib ''ScrapeGraphAI Generated Graph'' fmt
             [(''color'', ''lightblue2''), (''style'', ''filled'')] s = Inr (length s, ?s1)"
    using assms(1) by (simp add: Digraph_def usable_def fresh_graph_def)
  have "node_loop lib (length s) ep ns ?s1
      = (None, extend (length s) (map (node_stmt ep) names) ?s1)"
    by (rule node_loop_named [OF _ nr assms(3)]) simp
  then have nl: "node_loop lib (length s) ep ns ?s1 = (None, ?s2)"
    by (simp add: extend_fresh b)
  have "edge_loop lib (length s) es1 ?s2
      = (None, extend (length s) (concat (map edge_stmts E1)) ?s2)"
    by (rule edge_loop_from_to [OF _ er assms(4)]) simp
  then have el: "edge_loop lib (length s) es1 ?s2 = (None, ?s3)"
    by (simp add: extend_fresh)
  have "edge_loop lib (length s) (es1 @ e # es2) ?s2
      = (case edge_step lib (length s) e ?s3 of
           (Some x, s') \<Rightarrow> (Some x, s')
         | (None, s') \<Rightarrow> edge_loop lib (length s) es2 s')"
    by (simp add: edge_loop_append el)
  then show ?thesis
    by (simp add: convert_json_to_graphviz_def inst D assms(2) nl split: prod.splits option.splits)
qed

lemma edge_step_from_fails:
  assumes "getitem e ''to'' = Inr t" and "getitem e ''from'' = Inl x"
    and "t \<noteq> JList []"
  shows "edge_step lib g e s = (Some x, s)"
proof (cases t)
  case (JList ts)
  with assms(3) obtain h hs where "ts = h # hs"
    by (cases ts) auto
  with JList assms(1,2) show ?thesis
    by (simp add: edge_step_def)
qed (use assms(1,2) in \<open>simp_all add: edge_step_def\<close>)

lemma convert_read_config_cong:
  assumes "read_config d' = read_config d"
  shows "convert_json_to_graphviz lib d' fmt s = convert_json_to_graphviz lib d fmt s"
  unfolding convert_json_to_graphviz_def assms by (rule refl)

lemma read_config_default_written:
  assumes "graph_config d = Inr (JDict cfg)"
    and "graph_config d' = Inr (JDict (cfg @ [(k, v)]))"
    and "map_of cfg k = None"
    and "(k, v) \<in> set [(''nodes'', JList []), (''edges'', JList []), (''entry_point'', JNull)]"
  shows "read_config d' = read_config d"
  using assms
  by (auto simp: read_config_def map_add_def split: option.splits)

section \<open>Claims\<close>

text \<open>
  C1. For a description with node entries named \<open>names\<close> (unique), well-formed edge
  entries and an entry point that is one of the names, the call returns a graph on which
  \<^verbatim>\<open>node\<close> was called once per node entry, in the order of the description, and
  exactly one of those calls is highlighted (it passes the double circle shape), the
  one whose name is the entry point; every other node statement has no attribute of
  its own, so the graph's default style applies to it.
\<close>

theorem nodes_drawn_once_entry_highlighted:
  assumes "usable lib fmt"
    and "read_config json_data = Inr (JList ns, JList es, JStr entry)"
    and "nodes_named ns names" and "edges_from_to es E"
    and "distinct names" and "entry \<in> set names"
  shows "\<exists>g. returned_graph (convert_json_to_graphviz lib json_data fmt s) = Some g \<and>
           node_calls (body g) = map (\<lambda>n. (JStr n, n = entry)) names \<and>
           filter snd (node_calls (body g)) = [(JStr entry, True)] \<and>
           filter is_node (body g)
             = map (\<lambda>n. NodeStmt (JStr n)
                      (if n = entry then [(''shape'', ''doublecircle'')] else [])) names"
proof -
  let ?g = "(fresh_graph fmt)\<lparr>body := map (node_stmt (JStr entry)) names @ concat (map edge_stmts E)\<rparr>"
  have g: "returned_graph (convert_json_to_graphviz lib json_data fmt s) = Some ?g"
    by (rule well_formed_result(1) [OF assms(1-4)])
  have calls: "node_calls (body ?g) = map (\<lambda>n. (JStr n, n = entry)) names"
    by (simp add: node_calls_append node_calls_node_stmts node_calls_edge_stmts)
  have one: "filter snd (node_calls (body ?g)) = [(JStr entry, True)]"
    unfolding calls by (rule one_highlighted [OF assms(5,6)])
  have stmts: "filter is_node (body ?g)
      = map (\<lambda>n. NodeStmt (JStr n)
               (if n = entry then [(''shape'', ''doublecircle'')] else [])) names"
    by (simp add: filter_is_node_node_stmts filter_is_node_edge_stmts node_stmt_def)
  from g calls one stmts show ?thesis by blast
qed

theorem nodes_drawn_once_entry_highlighted_witness:
  "\<exists>g. returned_graph
         (convert_json_to_graphviz graphviz
            (JDict [(''text'', JList [JDict
               [(''nodes'', JList [JDict [(''node_name'', JStr ''fetch'')],
                                   JDict [(''node_name'', JStr ''parse'')]]),
                (''edges'', JList [JDict [(''from'', JStr ''fetch''), (''to'', JStr ''parse'')]]),
                (''entry_point'', JStr ''fetch'')]])])
            ''pdf'' []) = Some g \<and>
       node_calls (body g) = [(JStr ''fetch'', True), (JStr ''parse'', False)] \<and>
       filter snd (node_calls (body g)) = [(JStr ''fetch'', True)] \<and>
       filter is_node (body g)
         = [NodeStmt (JStr ''fetch'') [(''shape'', ''doublecircle'')], NodeStmt (JStr ''parse'') []]"
proof -
  let ?ns = "[JDict [(''node_name'', JStr ''fetch'')], JDict [(''node_name'', JStr ''parse'')]]"
  let ?es = "[JDict [(''from'', JStr ''fetch''), (''to'', JStr ''parse'')]]"
  let ?d = "JDict [(''text'', JList [JDict
               [(''nodes'', JList ?ns), (''edges'', JList ?es), (''entry_point'', JStr ''fetch'')]])]"
  have u: "usable graphviz ''pdf''"
    by (simp add: usable_def graphviz_def)
  have r: "read_config ?d = Inr (JList ?ns, JList ?es, JStr ''fetch'')"
    by (simp add: read_config_def graph_config_def)
  have n: "nodes_named ?ns [''fetch'', ''parse'']"
    by (simp add: nodes_named_def)
  have e: "edges_from_to ?es [(''fetch'', One ''parse'')]"
    by (simp add: edges_from_to_def)
  show ?thesis
    using nodes_drawn_once_entry_highlighted [OF u r n e, of "[]"] by simp
qed

text \<open>
  C2. The edge entries are processed in order: an entry whose \<^verbatim>\<open>to\<close> is one name gives
  one \<^verbatim>\<open>edge\<close> call from its source to that name, an entry whose \<^verbatim>\<open>to\<close> is a sequence
  of \<open>k\<close> names gives \<open>k\<close> calls, one per target, in the order of the sequence.
\<close>

theorem edges_drawn_in_order_with_fan_out:
  assumes "usable lib fmt"
    and "read_config json_data = Inr (JList ns, JList es, entry_point)"
    and "nodes_named ns names" and "edges_from_to es E"
  shows "\<exists>g. returned_graph (convert_json_to_graphviz lib json_data fmt s) = Some g \<and>
           edge_calls (body g)
             = concat (map (\<lambda>ft. case snd ft of
                                     One t \<Rightarrow> [(JStr (fst ft), JStr t)]
                                   | Many ts \<Rightarrow> map (\<lambda>t. (JStr (fst ft), JStr t)) ts) E) \<and>
           length (edge_calls (body g))
             = sum_list (map (\<lambda>ft. case snd ft of One t \<Rightarrow> 1 | Many ts \<Rightarrow> length ts) E)"
proof -
  let ?g = "(fresh_graph fmt)\<lparr>body := map (node_stmt entry_point) names @ concat (map edge_stmts E)\<rparr>"
  let ?calls = "\<lambda>ft. case snd ft of
                        One t \<Rightarrow> [(JStr (fst ft), JStr t)]
                      | Many ts \<Rightarrow> map (\<lambda>t. (JStr (fst ft), JStr t)) ts"
  have g: "returned_graph (convert_json_to_graphviz lib json_data fmt s) = Some ?g"
    by (rule well_formed_result(1) [OF assms])
  have each: "map (\<lambda>t. (JStr (fst ft), JStr t)) (targets (snd ft)) = ?calls ft" for ft :: "string \<times> target"
    by (cases "snd ft") simp_all
  have calls: "edge_calls (body ?g) = concat (map ?calls E)"
    by (simp add: edge_calls_append edge_calls_node_stmts edge_calls_edge_stmts each)
  have "length (concat (map ?calls E))
      = sum_list (map (\<lambda>ft. case snd ft of One t \<Rightarrow> 1 | Many ts \<Rightarrow> length ts) E)"
    by (induction E) (auto split: target.splits)
  with g calls show ?thesis by metis
qed

theorem edges_drawn_in_order_with_fan_out_witness:
  "\<exists>g. returned_graph
         (convert_json_to_graphviz graphviz
            (JDict [(''text'', JList [JDict
               [(''nodes'', JList [JDict [(''node_name'', JStr ''fetch'')],
                                   JDict [(''node_name'', JStr ''parse'')],
                                   JDict [(''node_name'', JStr ''store'')]]),
                (''edges'', JList [JDict [(''from'', JStr ''fetch''),
                                          (''to'', JList [JStr ''parse'', JStr ''store''])],
                                   JDict [(''from'', JStr ''parse''), (''to'', JStr ''store'')]]),
                (''entry_point'', JStr ''fetch'')]])])
            ''pdf'' []) = Some g \<and>
       edge_calls (body g)
         = [(JStr ''fetch'', JStr ''parse''), (JStr ''fetch'', JStr ''store''),
            (JStr ''parse'', JStr ''store'')] \<and>
       length (edge_calls (body g)) = 3"
proof -
  let ?ns = "[JDict [(''node_name'', JStr ''fetch'')], JDict [(''node_name'', JStr ''parse'')],
              JDict [(''node_name'', JStr ''store'')]]"
  let ?es = "[JDict [(''from'', JStr ''fetch''), (''to'', JList [JStr ''parse'', JStr ''store''])],
              JDict [(''from'', JStr ''parse''), (''to'', JStr ''store'')]]"
  let ?d = "JDict [(''text'', JList [JDict
               [(''nodes'', JList ?ns), (''edges'', JList ?es), (''entry_point'', JStr ''fetch'')]])]"
  have u: "usable graphviz ''pdf''"
    by (simp add: usable_def graphviz_def)
  have r: "read_config ?d = Inr (JList ?ns, JList ?es, JStr ''fetch'')"
    by (simp add: read_config_def graph_config_def)
  have n: "nodes_named ?ns [''fetch'', ''parse'', ''store'']"
    by (simp add: nodes_named_def)
  have e: "edges_from_to ?es [(''fetch'', Many [''parse'', ''store'']), (''parse'', One ''store'')]"
    by (simp add: edges_from_to_def)
  show ?thesis
    using edges_drawn_in_order_with_fan_out [OF u r n e, of "[]"]
    by (simp add: numeral_3_eq_3)
qed

text \<open>
  C3. \<^verbatim>\<open>json_data["text"][0]\<close> is evaluated before anything is read or drawn: when
  \<^verbatim>\<open>json_data\<close> is a dict without the key \<^verbatim>\<open>"text"\<close> the call raises \<open>KeyError\<close>, when
  the value under \<^verbatim>\<open>"text"\<close> is an empty list or an empty string it raises
  \<open>IndexError\<close>, whatever else the dict holds; the only object the call has created is
  the graph, with no statement in it.
\<close>

theorem text_lookup_fails_before_drawing:
  assumes "installed lib" and "format_refused lib fmt = None"
    and "map_of kvs ''text'' = None \<or> map_of kvs ''text'' = Some (JList []) \<or>
         map_of kvs ''text'' = Some (JStr [])"
  shows "raised (convert_json_to_graphviz lib (JDict kvs) fmt s)
           = Some (if map_of kvs ''text'' = None then KeyError else IndexError) \<and>
         returned_graph (convert_json_to_graphviz lib (JDict kvs) fmt s) = None \<and>
         map body (created s (convert_json_to_graphviz lib (JDict kvs) fmt s)) = [[]]"
proof -
  let ?e = "if map_of kvs ''text'' = None then KeyError else IndexError"
  have D: "Digraph lib ''ScrapeGraphAI Generated Graph'' fmt
             [(''color'', ''lightblue2''), (''style'', ''filled'')] s
           = Inr (length s, s @ [fresh_graph fmt])"
    using assms(2) by (simp add: Digraph_def fresh_graph_def)
  have "graph_config (JDict kvs) = Inl ?e"
    using assms(3) by (auto simp: graph_config_def)
  then have "read_config (JDict kvs) = Inl ?e"
    by (simp add: read_config_def)
  then have "convert_json_to_graphviz lib (JDict kvs) fmt s = (Raised ?e, s @ [fresh_graph fmt])"
    using assms(1) by (simp add: convert_json_to_graphviz_def D)
  then show ?thesis
    by (simp add: created_def fresh_graph_def)
qed

theorem text_lookup_fails_before_drawing_witness:
  "raised (convert_json_to_graphviz graphviz
      (JDict [(''nodes'', JList [JDict [(''node_name'', JStr ''fetch'')]]),
              (''edges'', JList []),
              (''entry_point'', JStr ''fetch'')])
      ''pdf'' []) = Some KeyError \<and>
   map body (created [] (convert_json_to_graphviz graphviz
      (JDict [(''nodes'', JList [JDict [(''node_name'', JStr ''fetch'')]]),
              (''edges'', JList []),
              (''entry_point'', JStr ''fetch'')])
      ''pdf'' [])) = [[]] \<and>
   raised (convert_json_to_graphviz graphviz (JDict [(''text'', JList [])]) ''pdf'' [])
     = Some IndexError"
proof -
  have i: "installed graphviz" and f: "format_refused graphviz ''pdf'' = None"
    by (simp_all add: graphviz_def)
  have a: "map_of [(''nodes'', JList [JDict [(''node_name'', JStr ''fetch'')]]),
                   (''edges'', JList []), (''entry_point'', JStr ''fetch'')] ''text'' = None \<or>
           map_of [(''nodes'', JList [JDict [(''node_name'', JStr ''fetch'')]]),
                   (''edges'', JList []), (''entry_point'', JStr ''fetch'')] ''text''
             = Some (JList []) \<or>
           map_of [(''nodes'', JList [JDict [(''node_name'', JStr ''fetch'')]]),
                   (''edges'', JList []), (''entry_point'', JStr ''fetch'')] ''text''
             = Some (JStr [])"
    by simp
  have b: "map_of [(''text'', JList [])] ''text'' = None \<or>
           map_of [(''text'', JList [])] ''text'' = Some (JList []) \<or>
           map_of [(''text'', JList [])] ''text'' = Some (JStr [])"
    by simp
  show ?thesis
    using text_lookup_fails_before_drawing [OF i f a, of "[]"]
      text_lookup_fails_before_drawing [OF i f b, of "[]"]
    by simp
qed

text \<open>
  C4, as the claim states it, fails: a description with no \<^verbatim>\<open>entry_point\<close> raises
  nothing, and a graph is returned.
\<close>

theorem missing_entry_point_counterexample:
  "raised (convert_json_to_graphviz graphviz
      (JDict [(''text'', JList [JDict
         [(''nodes'', JList [JDict [(''node_name'', JStr ''fetch'')],
                             JDict [(''node_name'', JStr ''parse'')]]),
          (''edges'', JList [JDict [(''from'', JStr ''fetch''), (''to'', JStr ''parse'')]])]])])
      ''pdf'' []) = None \<and>
   returned_graph (convert_json_to_graphviz graphviz
      (JDict [(''text'', JList [JDict
         [(''nodes'', JList [JDict [(''node_name'', JStr ''fetch'')],
                             JDict [(''node_name'', JStr ''parse'')]]),
          (''edges'', JList [JDict [(''from'', JStr ''fetch''), (''to'', JStr ''parse'')]])]])])
      ''pdf'' [])
     = Some \<lparr>comment = ''ScrapeGraphAI Generated Graph'', format = ''pdf'',
             node_attr = [(''color'', ''lightblue2''), (''style'', ''filled'')],
             body = [NodeStmt (JStr ''fetch'') [], NodeStmt (JStr ''parse'') [],
                     EdgeStmt (JStr ''fetch'') (JStr ''parse'')]\<rparr>"
  by (simp add: convert_json_to_graphviz_def graphviz_def Digraph_def read_config_def
      graph_config_def node_def edge_def edge_step_def append_stmt_def)

text \<open>
  C4, amended. When the graph configuration has no \<^verbatim>\<open>entry_point\<close>, or has the empty
  string there, the call raises nothing and returns a graph with one node statement per
  node entry and the edges of the edge entries. With no \<^verbatim>\<open>entry_point\<close> no node is
  highlighted; with the empty string the highlighted nodes are those whose name is the
  empty string.
\<close>

theorem missing_entry_point_is_tolerated:
  assumes "usable lib fmt"
    and "graph_config json_data = Inr (JDict cfg)"
    and "map_of cfg ''entry_point'' = None \<or> map_of cfg ''entry_point'' = Some (JStr [])"
    and "get_method (JDict cfg) ''nodes'' (JList []) = Inr (JList ns)"
    and "nodes_named ns names"
    and "get_method (JDict cfg) ''edges'' (JList []) = Inr (JList es)"
    and "edges_from_to es E"
  shows "\<exists>g. returned_graph (convert_json_to_graphviz lib json_data fmt s) = Some g \<and>
           raised (convert_json_to_graphviz lib json_data fmt s) = None \<and>
           node_calls (body g)
             = map (\<lambda>n. (JStr n, map_of cfg ''entry_point'' = Some (JStr []) \<and> n = [])) names \<and>
           edge_calls (body g)
             = concat (map (\<lambda>ft. map (\<lambda>t. (JStr (fst ft), JStr t)) (targets (snd ft))) E)"
proof -
  let ?ep = "case map_of cfg ''entry_point'' of None \<Rightarrow> JNull | Some v \<Rightarrow> v"
  let ?g = "(fresh_graph fmt)\<lparr>body := map (node_stmt ?ep) names @ concat (map edge_stmts E)\<rparr>"
  have rc: "read_config json_data = Inr (JList ns, JList es, ?ep)"
    by (rule read_config_dict [OF assms(2,4,6)])
  have g: "returned_graph (convert_json_to_graphviz lib json_data fmt s) = Some ?g"
    and r: "raised (convert_json_to_graphviz lib json_data fmt s) = None"
    by (rule well_formed_result [OF assms(1) rc assms(5,7)])+
  have "py_eq (JStr n) ?ep \<longleftrightarrow> map_of cfg ''entry_point'' = Some (JStr []) \<and> n = []" for n
    using assms(3) by auto
  then have n: "node_calls (body ?g)
      = map (\<lambda>n. (JStr n, map_of cfg ''entry_point'' = Some (JStr []) \<and> n = [])) names"
    by (simp add: node_calls_append node_calls_node_stmts node_calls_edge_stmts)
  have e: "edge_calls (body ?g)
      = concat (map (\<lambda>ft. map (\<lambda>t. (JStr (fst ft), JStr t)) (targets (snd ft))) E)"
    by (simp add: edge_calls_append edge_calls_node_stmts edge_calls_edge_stmts)
  from g r n e show ?thesis by blast
qed

theorem missing_entry_point_is_tolerated_witness:
  "\<exists>g. returned_graph (convert_json_to_graphviz graphviz
      (JDict [(''text'', JList [JDict
         [(''nodes'', JList [JDict [(''node_name'', JStr ''fetch'')],
                             JDict [(''node_name'', JStr ''parse'')]]),
          (''edges'', JList [JDict [(''from'', JStr ''fetch''), (''to'', JStr ''parse'')]])]])])
      ''pdf'' []) = Some g \<and>
    node_calls (body g) = [(JStr ''fetch'', False), (JStr ''parse'', False)] \<and>
    edge_calls (body g) = [(JStr ''fetch'', JStr ''parse'')]"
proof -
  let ?ns = "[JDict [(''node_name'', JStr ''fetch'')], JDict [(''node_name'', JStr ''parse'')]]"
  let ?es = "[JDict [(''from'', JStr ''fetch''), (''to'', JStr ''parse'')]]"
  let ?cfg = "[(''nodes'', JList ?ns), (''edges'', JList ?es)]"
  let ?d = "JDict [(''text'', JList [JDict ?cfg])]"
  have u: "usable graphviz ''pdf''"
    by (simp add: usable_def graphviz_def)
  have c: "graph_config ?d = Inr (JDict ?cfg)"
    by (simp add: graph_config_def)
  have a: "map_of ?cfg ''entry_point'' = None \<or> map_of ?cfg ''entry_point'' = Some (JStr [])"
    by simp
  have gn: "get_method (JDict ?cfg) ''nodes'' (JList []) = Inr (JList ?ns)"
    by simp
  have ge: "get_method (JDict ?cfg) ''edges'' (JList []) = Inr (JList ?es)"
    by simp
  have n: "nodes_named ?ns [''fetch'', ''parse'']"
    by (simp add: nodes_named_def)
  have e: "edges_from_to ?es [(''fetch'', One ''parse'')]"
    by (simp add: edges_from_to_def)
  show ?thesis
    using missing_entry_point_is_tolerated [OF u c a gn n ge e, of "[]"] by auto
qed

text \<open>
  C5, as the claim states it, fails: an edge from \<^verbatim>\<open>fetch\<close> to \<^verbatim>\<open>ghost\<close>, with
  \<^verbatim>\<open>fetch\<close> the only node, raises nothing; the graph is returned with that edge.
\<close>

theorem unknown_edge_target_counterexample:
  "raised (convert_json_to_graphviz graphviz
      (JDict [(''text'', JList [JDict
         [(''nodes'', JList [JDict [(''node_name'', JStr ''fetch'')]]),
          (''edges'', JList [JDict [(''from'', JStr ''fetch''), (''to'', JStr ''ghost'')]]),
          (''entry_point'', JStr ''fetch'')]])])
      ''pdf'' []) = None \<and>
   returned_graph (convert_json_to_graphviz graphviz
      (JDict [(''text'', JList [JDict
         [(''nodes'', JList [JDict [(''node_name'', JStr ''fetch'')]]),
          (''edges'', JList [JDict [(''from'', JStr ''fetch''), (''to'', JStr ''ghost'')]]),
          (''entry_point'', JStr ''fetch'')]])])
      ''pdf'' [])
     = Some \<lparr>comment = ''ScrapeGraphAI Generated Graph'', format = ''pdf'',
             node_attr = [(''color'', ''lightblue2''), (''style'', ''filled'')],
             body = [NodeStmt (JStr ''fetch'') [(''shape'', ''doublecircle'')],
                     EdgeStmt (JStr ''fetch'') (JStr ''ghost'')]\<rparr>"
  by (simp add: convert_json_to_graphviz_def graphviz_def Digraph_def read_config_def
      graph_config_def node_def edge_def edge_step_def append_stmt_def)

text \<open>
  C5, amended. When an edge entry names, as its source or as a target, a node that no
  node entry has, the call raises nothing: it returns a graph, and the \<^verbatim>\<open>edge\<close> calls
  on it include one from the source of that entry to each of its targets, with the
  names as they are written.
\<close>

theorem unknown_edge_reference_is_drawn:
  assumes "usable lib fmt"
    and "read_config json_data = Inr (JList ns, JList es, entry_point)"
    and "nodes_named ns names" and "edges_from_to es E"
    and "(f, t) \<in> set E"
    and "f \<notin> set names \<or> \<not> set (targets t) \<subseteq> set names"
  shows "\<exists>g. returned_graph (convert_json_to_graphviz lib json_data fmt s) = Some g \<and>
           raised (convert_json_to_graphviz lib json_data fmt s) = None \<and>
           (\<forall>h \<in> set (targets t). (JStr f, JStr h) \<in> set (edge_calls (body g)))"
proof -
  let ?g = "(fresh_graph fmt)\<lparr>body := map (node_stmt entry_point) names @ concat (map edge_stmts E)\<rparr>"
  have g: "returned_graph (convert_json_to_graphviz lib json_data fmt s) = Some ?g"
    and r: "raised (convert_json_to_graphviz lib json_data fmt s) = None"
    by (rule well_formed_result [OF assms(1-4)])+
  have "(JStr f, JStr h) \<in> set (edge_calls (body ?g))" if "h \<in> set (targets t)" for h
    using that assms(5)
    by (force simp: edge_calls_append edge_calls_node_stmts edge_calls_edge_stmts)
  with g r show ?thesis by blast
qed

theorem unknown_edge_reference_is_drawn_witness:
  "\<exists>g. returned_graph (convert_json_to_graphviz graphviz
      (JDict [(''text'', JList [JDict
         [(''nodes'', JList [JDict [(''node_name'', JStr ''fetch'')]]),
          (''edges'', JList [JDict [(''from'', JStr ''fetch''), (''to'', JStr ''ghost'')]]),
          (''entry_point'', JStr ''fetch'')]])])
      ''pdf'' []) = Some g \<and>
    (JStr ''fetch'', JStr ''ghost'') \<in> set (edge_calls (body g))"
proof -
  let ?ns = "[JDict [(''node_name'', JStr ''fetch'')]]"
  let ?es = "[JDict [(''from'', JStr ''fetch''), (''to'', JStr ''ghost'')]]"
  let ?d = "JDict [(''text'', JList [JDict
               [(''nodes'', JList ?ns), (''edges'', JList ?es), (''entry_point'', JStr ''fetch'')]])]"
  have u: "usable graphviz ''pdf''"
    by (simp add: usable_def graphviz_def)
  have r: "read_config ?d = Inr (JList ?ns, JList ?es, JStr ''fetch'')"
    by (simp add: read_config_def graph_config_def)
  have n: "nodes_named ?ns [''fetch'']"
    by (simp add: nodes_named_def)
  have e: "edges_from_to ?es [(''fetch'', One ''ghost'')]"
    by (simp add: edges_from_to_def)
  have m: "(''fetch'', One ''ghost'') \<in> set [(''fetch'', One ''ghost'')]"
    by simp
  have g: "''fetch'' \<notin> set [''fetch''] \<or> \<not> set (targets (One ''ghost'')) \<subseteq> set [''fetch'']"
    by simp
  show ?thesis
    using unknown_edge_reference_is_drawn [OF u r n e m g, of "[]"] by auto
qed

text \<open>
  C6, as the claim states it, fails: an edge entry whose \<^verbatim>\<open>to\<close> is the number 5 is
  processed, \<^verbatim>\<open>graph.edge("fetch", 5)\<close> is called, and the error the call ends with is
  the library's refusal of the end point, not a validation error.
\<close>

theorem malformed_edge_counterexample:
  "raised (convert_json_to_graphviz graphviz
      (JDict [(''text'', JList [JDict
         [(''nodes'', JList [JDict [(''node_name'', JStr ''fetch'')]]),
          (''edges'', JList [JDict [(''from'', JStr ''fetch''), (''to'', JInt 5)]]),
          (''entry_point'', JStr ''fetch'')]])])
      ''pdf'' []) = Some (LibraryError ''AttributeError'') \<and>
   raised (convert_json_to_graphviz graphviz
      (JDict [(''text'', JList [JDict
         [(''nodes'', JList [JDict [(''node_name'', JStr ''fetch'')]]),
          (''edges'', JList [JDict [(''from'', JStr ''fetch''), (''to'', JInt 5)]]),
          (''entry_point'', JStr ''fetch'')]])])
      ''pdf'' []) \<noteq> Some MalformedEdge"
  by (simp add: convert_json_to_graphviz_def graphviz_def Digraph_def read_config_def
      graph_config_def node_def edge_def edge_step_def append_stmt_def)

text \<open>
  C6, amended. No call raises \<open>MalformedEdge\<close>, whatever the input. Let the library be
  usable, the graph configuration be a dict with a list of well-formed node entries and
  a list of edge entries, and \<open>e\<close> be one of these edge entries, with a \<^verbatim>\<open>to\<close> field
  that is neither a string nor a sequence of strings, the edge entries before \<open>e\<close> being
  well formed. Then \<open>e\<close> is processed like any other entry. If \<open>e\<close> has no \<^verbatim>\<open>from\<close>
  field, the call ends with the error of that lookup, after the calls of the entries
  before \<open>e\<close>. Otherwise the end points handed to \<^verbatim>\<open>graph.edge\<close> with the value of
  \<^verbatim>\<open>from\<close> are the elements of \<^verbatim>\<open>to\<close> when it is a list and \<^verbatim>\<open>to\<close> itself otherwise,
  in order: when the library accepts them all, these calls are made after those of the
  entries before; when it refuses one, the calls before that one are made and the call
  ends with the library's error.
\<close>

theorem malformed_edge_is_handed_to_the_library:
  "raised (convert_json_to_graphviz lib json_data fmt s) \<noteq> Some MalformedEdge \<and>
   (usable lib fmt \<and>
    read_config json_data = Inr (JList ns, JList (es1 @ e # es2), entry_point) \<and>
    nodes_named ns names \<and> edges_from_to es1 E1 \<and>
    getitem e ''to'' = Inr t \<and> (\<forall>tg. t \<noteq> to_json tg) \<and>
    hs = (case t of JList ts \<Rightarrow> ts | _ \<Rightarrow> [t]) \<longrightarrow>
      (\<forall>x. getitem e ''from'' = Inl x \<longrightarrow>
         raised (convert_json_to_graphviz lib json_data fmt s) = Some x \<and>
         (\<exists>g. created s (convert_json_to_graphviz lib json_data fmt s) = [g] \<and>
            edge_calls (body g)
              = concat (map (\<lambda>ft. map (\<lambda>t. (JStr (fst ft), JStr t)) (targets (snd ft))) E1))) \<and>
      (\<forall>f. getitem e ''from'' = Inr f \<longrightarrow>
         ((\<forall>h \<in> set hs. edge_refused lib f h = None) \<longrightarrow>
            (\<exists>g rest. created s (convert_json_to_graphviz lib json_data fmt s) = [g] \<and>
               edge_calls (body g)
                 = concat (map (\<lambda>ft. map (\<lambda>t. (JStr (fst ft), JStr t)) (targets (snd ft))) E1)
                   @ map (\<lambda>h. (f, h)) hs @ rest)) \<and>
         (\<forall>acc h hs2 x.
            hs = acc @ h # hs2 \<and> (\<forall>a \<in> set acc. edge_refused lib f a = None) \<and>
            edge_refused lib f h = Some x \<longrightarrow>
              raised (convert_json_to_graphviz lib json_data fmt s) = Some (LibraryError x) \<and>
              (\<exists>g. created s (convert_json_to_graphviz lib json_data fmt s) = [g] \<and>
                 edge_calls (body g)
                   = concat (map (\<lambda>ft. map (\<lambda>t. (JStr (fst ft), JStr t)) (targets (snd ft))) E1)
                     @ map (\<lambda>h. (f, h)) acc))))"
proof (rule conjI)
  show "raised (convert_json_to_graphviz lib json_data fmt s) \<noteq> Some MalformedEdge"
    using raised_no_validation_error [of lib json_data fmt s MalformedEdge] by auto
next
  let ?conv = "convert_json_to_graphviz lib json_data fmt s"
  let ?E1 = "concat (map (\<lambda>ft. map (\<lambda>t. (JStr (fst ft), JStr t)) (targets (snd ft))) E1)"
  let ?b3 = "map (node_stmt entry_point) names @ concat (map edge_stmts E1)"
  let ?s3 = "s @ [(fresh_graph fmt)\<lparr>body := ?b3\<rparr>]"
  let ?hyps = "usable lib fmt \<and>
    read_config json_data = Inr (JList ns, JList (es1 @ e # es2), entry_point) \<and>
    nodes_named ns names \<and> edges_from_to es1 E1 \<and>
    getitem e ''to'' = Inr t \<and> (\<forall>tg. t \<noteq> to_json tg) \<and>
    hs = (case t of JList ts \<Rightarrow> ts | _ \<Rightarrow> [t])"
  have calls_E1: "edge_calls ?b3 = ?E1"
    by (simp add: edge_calls_append edge_calls_node_stmts edge_calls_edge_stmts)
  have calls_hs: "edge_calls (map (EdgeStmt f) xs) = map (\<lambda>h. (f, h)) xs" for f xs
    by (induction xs) auto
  {
    assume a: ?hyps
    then have u: "usable lib fmt"
      and r: "read_config json_data = Inr (JList ns, JList (es1 @ e # es2), entry_point)"
      and n: "nodes_named ns names" and e1: "edges_from_to es1 E1"
      and t: "getitem e ''to'' = Inr t"
      and hs: "hs = (case t of JList ts \<Rightarrow> ts | _ \<Rightarrow> [t])"
      by blast+
    from a have nt: "t \<noteq> to_json tg" for tg
      by blast
    have t_ne: "t \<noteq> JList []"
      using nt [of "Many []"] by simp
    have run: "?conv
       = (case edge_step lib (length s) e ?s3 of
            (Some x, s') \<Rightarrow> (Raised x, s')
          | (None, s') \<Rightarrow>
              (case edge_loop lib (length s) es2 s' of
                 (Some x, s'') \<Rightarrow> (Raised x, s'')
               | (None, s'') \<Rightarrow> (Returned (length s), s'')))"
      by (rule convert_up_to_edge [OF u r n e1])
    have no_from: "raised ?conv = Some x \<and>
         (\<exists>g. created s ?conv = [g] \<and> edge_calls (body g) = ?E1)"
      if "getitem e ''from'' = Inl x" for x
    proof -
      have "edge_step lib (length s) e ?s3 = (Some x, ?s3)"
        by (rule edge_step_from_fails [OF t that t_ne])
      then have conv: "?conv = (Raised x, ?s3)"
        by (simp add: run)
      have "created s ?conv = [(fresh_graph fmt)\<lparr>body := ?b3\<rparr>]"
        by (simp add: conv created_def)
      moreover have "edge_calls (body ((fresh_graph fmt)\<lparr>body := ?b3\<rparr>)) = ?E1"
        using calls_E1 by simp
      ultimately have "\<exists>g. created s ?conv = [g] \<and> edge_calls (body g) = ?E1"
        by (intro exI conjI)
      then show ?thesis
        by (simp add: conv)
    qed
    have accepted: "\<exists>g rest. created s ?conv = [g] \<and>
           edge_calls (body g) = ?E1 @ map (\<lambda>h. (f, h)) hs @ rest"
      if f: "getitem e ''from'' = Inr f"
        and ok: "\<forall>h \<in> set hs. edge_refused lib f h = None" for f
    proof -
      have step: "edge_step lib (length s) e ?s3 = to_loop lib (length s) e hs ?s3"
        unfolding hs by (rule edge_step_to_loop [OF f t])
      have "to_loop lib (length s) e hs ?s3
          = (None, extend (length s) (map (EdgeStmt f) hs) ?s3)"
        by (rule to_loop_accepted [OF f ok]) simp
      then have tl: "edge_step lib (length s) e ?s3
          = (None, s @ [(fresh_graph fmt)\<lparr>body := ?b3 @ map (EdgeStmt f) hs\<rparr>])"
        by (simp add: step extend_fresh)
      obtain r' sts where
        "\<And>g s. g < length s \<Longrightarrow> edge_loop lib g es2 s = (r', extend g sts s)"
        using edge_loop_any [of lib es2] by blast
      from this [of "length s" "s @ [(fresh_graph fmt)\<lparr>body := ?b3 @ map (EdgeStmt f) hs\<rparr>]"]
      have el: "edge_loop lib (length s) es2
            (s @ [(fresh_graph fmt)\<lparr>body := ?b3 @ map (EdgeStmt f) hs\<rparr>])
          = (r', s @ [(fresh_graph fmt)\<lparr>body := ?b3 @ map (EdgeStmt f) hs @ sts\<rparr>])"
        by (simp add: extend_fresh)
      let ?g = "(fresh_graph fmt)\<lparr>body := ?b3 @ map (EdgeStmt f) hs @ sts\<rparr>"
      have c: "created s ?conv = [?g]"
        using el by (simp add: run tl created_def split: option.splits)
      have "edge_calls (body ?g) = ?E1 @ map (\<lambda>h. (f, h)) hs @ edge_calls sts"
        by (simp add: edge_calls_append edge_calls_node_stmts edge_calls_edge_stmts calls_hs)
      with c show ?thesis
        by (intro exI conjI)
    qed
    have refused: "raised ?conv = Some (LibraryError x) \<and>
          (\<exists>g. created s ?conv = [g] \<and>
             edge_calls (body g) = ?E1 @ map (\<lambda>h. (f, h)) acc)"
      if f: "getitem e ''from'' = Inr f"
        and split: "hs = acc @ h # hs2"
        and acc: "\<forall>a \<in> set acc. edge_refused lib f a = None"
        and h: "edge_refused lib f h = Some x" for f acc h hs2 x
    proof -
      have step: "edge_step lib (length s) e ?s3 = to_loop lib (length s) e hs ?s3"
        unfolding hs by (rule edge_step_to_loop [OF f t])
      have "to_loop lib (length s) e (acc @ h # hs2) ?s3
          = (Some (LibraryError x), extend (length s) (map (EdgeStmt f) acc) ?s3)"
        by (rule to_loop_refused [OF f acc h]) simp
      then have tl: "edge_step lib (length s) e ?s3
          = (Some (LibraryError x),
             s @ [(fresh_graph fmt)\<lparr>body := ?b3 @ map (EdgeStmt f) acc\<rparr>])"
        by (simp add: step split extend_fresh)
      let ?g = "(fresh_graph fmt)\<lparr>body := ?b3 @ map (EdgeStmt f) acc\<rparr>"
      have conv: "?conv = (Raised (LibraryError x), s @ [?g])"
        by (simp add: run tl)
      have c: "created s ?conv = [?g]"
        by (simp add: conv created_def)
      have "edge_calls (body ?g) = ?E1 @ map (\<lambda>h. (f, h)) acc"
        by (simp add: edge_calls_append edge_calls_node_stmts edge_calls_edge_stmts calls_hs)
      with c have "\<exists>g. created s ?conv = [g] \<and>
             edge_calls (body g) = ?E1 @ map (\<lambda>h. (f, h)) acc"
        by (intro exI conjI)
      then show ?thesis
        by (simp add: conv)
    qed
    have A: "\<forall>x. getitem e ''from'' = Inl x \<longrightarrow>
         raised ?conv = Some x \<and>
         (\<exists>g. created s ?conv = [g] \<and> edge_calls (body g) = ?E1)"
      by (intro allI impI) (rule no_from)
    have B1: "\<forall>f. getitem e ''from'' = Inr f \<longrightarrow>
         (\<forall>h \<in> set hs. edge_refused lib f h = None) \<longrightarrow>
            (\<exists>g rest. created s ?conv = [g] \<and>
               edge_calls (body g) = ?E1 @ map (\<lambda>h. (f, h)) hs @ rest)"
      by (intro allI impI) (rule accepted)
    have B2: "\<forall>f. getitem e ''from'' = Inr f \<longrightarrow>
         (\<forall>acc h hs2 x.
            hs = acc @ h # hs2 \<and> (\<forall>a \<in> set acc. edge_refused lib f a = None) \<and>
            edge_refused lib f h = Some x \<longrightarrow>
              raised ?conv = Some (LibraryError x) \<and>
              (\<exists>g. created s ?conv = [g] \<and>
                 edge_calls (body g) = ?E1 @ map (\<lambda>h. (f, h)) acc))"
    proof (intro allI impI)
      fix f acc h hs2 x
      assume f: "getitem e ''from'' = Inr f"
        and b: "hs = acc @ h # hs2 \<and> (\<forall>a \<in> set acc. edge_refused lib f a = None) \<and>
            edge_refused lib f h = Some x"
      from b have b1: "hs = acc @ h # hs2"
        and b2: "\<forall>a \<in> set acc. edge_refused lib f a = None"
        and b3: "edge_refused lib f h = Some x"
        by blast+
      show "raised ?conv = Some (LibraryError x) \<and>
              (\<exists>g. created s ?conv = [g] \<and>
                 edge_calls (body g) = ?E1 @ map (\<lambda>h. (f, h)) acc)"
        by (rule refused [OF f b1 b2 b3])
    qed
    have B: "\<forall>f. getitem e ''from'' = Inr f \<longrightarrow>
         ((\<forall>h \<in> set hs. edge_refused lib f h = None) \<longrightarrow>
            (\<exists>g rest. created s ?conv = [g] \<and>
               edge_calls (body g) = ?E1 @ map (\<lambda>h. (f, h)) hs @ rest)) \<and>
         (\<forall>acc h hs2 x.
            hs = acc @ h # hs2 \<and> (\<forall>a \<in> set acc. edge_refused lib f a = None) \<and>
            edge_refused lib f h = Some x \<longrightarrow>
              raised ?conv = Some (LibraryError x) \<and>
              (\<exists>g. created s ?conv = [g] \<and>
                 edge_calls (body g) = ?E1 @ map (\<lambda>h. (f, h)) acc))"
    proof (intro allI impI)
      fix f assume f: "getitem e ''from'' = Inr f"
      from B1 [THEN spec, THEN mp, OF f] B2 [THEN spec, THEN mp, OF f]
      show "((\<forall>h \<in> set hs. edge_refused lib f h = None) \<longrightarrow>
            (\<exists>g rest. created s ?conv = [g] \<and>
               edge_calls (body g) = ?E1 @ map (\<lambda>h. (f, h)) hs @ rest)) \<and>
         (\<forall>acc h hs2 x.
            hs = acc @ h # hs2 \<and> (\<forall>a \<in> set acc. edge_refused lib f a = None) \<and>
            edge_refused lib f h = Some x \<longrightarrow>
              raised ?conv = Some (LibraryError x) \<and>
              (\<exists>g. created s ?conv = [g] \<and>
                 edge_calls (body g) = ?E1 @ map (\<lambda>h. (f, h)) acc))"
        by (rule conjI)
    qed
    from A B have "(\<forall>x. getitem e ''from'' = Inl x \<longrightarrow>
         raised ?conv = Some x \<and>
         (\<exists>g. created s ?conv = [g] \<and> edge_calls (body g) = ?E1)) \<and>
      (\<forall>f. getitem e ''from'' = Inr f \<longrightarrow>
         ((\<forall>h \<in> set hs. edge_refused lib f h = None) \<longrightarrow>
            (\<exists>g rest. created s ?conv = [g] \<and>
               edge_calls (body g) = ?E1 @ map (\<lambda>h. (f, h)) hs @ rest)) \<and>
         (\<forall>acc h hs2 x.
            hs = acc @ h # hs2 \<and> (\<forall>a \<in> set acc. edge_refused lib f a = None) \<and>
            edge_refused lib f h = Some x \<longrightarrow>
              raised ?conv = Some (LibraryError x) \<and>
              (\<exists>g. created s ?conv = [g] \<and>
                 edge_calls (body g) = ?E1 @ map (\<lambda>h. (f, h)) acc)))"
      by (rule conjI)
  }
  then show "?hyps \<longrightarrow>
      (\<forall>x. getitem e ''from'' = Inl x \<longrightarrow>
         raised ?conv = Some x \<and>
         (\<exists>g. created s ?conv = [g] \<and> edge_calls (body g) = ?E1)) \<and>
      (\<forall>f. getitem e ''from'' = Inr f \<longrightarrow>
         ((\<forall>h \<in> set hs. edge_refused lib f h = None) \<longrightarrow>
            (\<exists>g rest. created s ?conv = [g] \<and>
               edge_calls (body g) = ?E1 @ map (\<lambda>h. (f, h)) hs @ rest)) \<and>
         (\<forall>acc h hs2 x.
            hs = acc @ h # hs2 \<and> (\<forall>a \<in> set acc. edge_refused lib f a = None) \<and>
            edge_refused lib f h = Some x \<longrightarrow>
              raised ?conv = Some (LibraryError x) \<and>
              (\<exists>g. created s ?conv = [g] \<and>
                 edge_calls (body g) = ?E1 @ map (\<lambda>h. (f, h)) acc)))"
    by (rule impI)
qed

theorem malformed_edge_is_handed_to_the_library_witness:
  "raised (convert_json_to_graphviz graphviz
      (JDict [(''text'', JList [JDict
         [(''nodes'', JList [JDict [(''node_name'', JStr ''fetch'')],
                             JDict [(''node_name'', JStr ''parse'')]]),
          (''edges'', JList [JDict [(''from'', JStr ''fetch''), (''to'', JStr ''parse'')],
                             JDict [(''from'', JStr ''parse''),
                                    (''to'', JList [JStr ''fetch'', JInt 5])]]),
          (''entry_point'', JStr ''fetch'')]])])
      ''pdf'' []) = Some (LibraryError ''AttributeError'') \<and>
   (\<exists>g. created [] (convert_json_to_graphviz graphviz
      (JDict [(''text'', JList [JDict
         [(''nodes'', JList [JDict [(''node_name'', JStr ''fetch'')],
                             JDict [(''node_name'', JStr ''parse'')]]),
          (''edges'', JList [JDict [(''from'', JStr ''fetch''), (''to'', JStr ''parse'')],
                             JDict [(''from'', JStr ''parse''),
                                    (''to'', JList [JStr ''fetch'', JInt 5])]]),
          (''entry_point'', JStr ''fetch'')]])])
      ''pdf'' []) = [g] \<and>
      edge_calls (body g) = [(JStr ''fetch'', JStr ''parse''), (JStr ''parse'', JStr ''fetch'')])"
proof -
  let ?ns = "[JDict [(''node_name'', JStr ''fetch'')], JDict [(''node_name'', JStr ''parse'')]]"
  let ?a = "JDict [(''from'', JStr ''fetch''), (''to'', JStr ''parse'')]"
  let ?e = "JDict [(''from'', JStr ''parse''), (''to'', JList [JStr ''fetch'', JInt 5])]"
  let ?d = "JDict [(''text'', JList [JDict
               [(''nodes'', JList ?ns), (''edges'', JList [?a, ?e]),
                (''entry_point'', JStr ''fetch'')]])]"
  have u: "usable graphviz ''pdf''"
    by (simp add: usable_def graphviz_def)
  have r: "read_config ?d = Inr (JList ?ns, JList ([?a] @ ?e # []), JStr ''fetch'')"
    by (simp add: read_config_def graph_config_def)
  have n: "nodes_named ?ns [''fetch'', ''parse'']"
    by (simp add: nodes_named_def)
  have a: "edges_from_to [?a] [(''fetch'', One ''parse'')]"
    by (simp add: edges_from_to_def)
  have f: "getitem ?e ''from'' = Inr (JStr ''parse'')"
    and t: "getitem ?e ''to'' = Inr (JList [JStr ''fetch'', JInt 5])"
    by simp_all
  have nt: "\<forall>tg. JList [JStr ''fetch'', JInt 5] \<noteq> to_json tg"
  proof
    fix tg
    show "JList [JStr ''fetch'', JInt 5] \<noteq> to_json tg"
      by (cases tg) auto
  qed
  have hs: "[JStr ''fetch'', JInt 5]
      = (case JList [JStr ''fetch'', JInt 5] of JList ts \<Rightarrow> ts
         | _ \<Rightarrow> [JList [JStr ''fetch'', JInt 5]])"
    by simp
  have hyps: "usable graphviz ''pdf'' \<and>
      read_config ?d = Inr (JList ?ns, JList ([?a] @ ?e # []), JStr ''fetch'') \<and>
      nodes_named ?ns [''fetch'', ''parse''] \<and>
      edges_from_to [?a] [(''fetch'', One ''parse'')] \<and>
      getitem ?e ''to'' = Inr (JList [JStr ''fetch'', JInt 5]) \<and>
      (\<forall>tg. JList [JStr ''fetch'', JInt 5] \<noteq> to_json tg) \<and>
      [JStr ''fetch'', JInt 5]
        = (case JList [JStr ''fetch'', JInt 5] of JList ts \<Rightarrow> ts
           | _ \<Rightarrow> [JList [JStr ''fetch'', JInt 5]])"
    using u r n a t nt hs by (intro conjI)
  have split: "[JStr ''fetch'', JInt 5] = [JStr ''fetch''] @ JInt 5 # [] \<and>
      (\<forall>a \<in> set [JStr ''fetch'']. edge_refused graphviz (JStr ''parse'') a = None) \<and>
      edge_refused graphviz (JStr ''parse'') (JInt 5) = Some ''AttributeError''"
    by (simp add: graphviz_def)
  show ?thesis
    using malformed_edge_is_handed_to_the_library
      [where s = "[]", THEN conjunct2, THEN mp, OF hyps, THEN conjunct2, THEN spec, THEN mp,
       OF f, THEN conjunct2, rule_format, OF split]
    by simp
qed

text \<open>
  C7, as the claim states it, fails: with the entry point \<^verbatim>\<open>"ghost"\<close> and the nodes
  \<^verbatim>\<open>fetch\<close> and \<^verbatim>\<open>parse\<close> the call raises nothing and returns a graph.
\<close>

theorem ghost_entry_point_counterexample:
  "raised (convert_json_to_graphviz graphviz
      (JDict [(''text'', JList [JDict
         [(''nodes'', JList [JDict [(''node_name'', JStr ''fetch'')],
                             JDict [(''node_name'', JStr ''parse'')]]),
          (''edges'', JList [JDict [(''from'', JStr ''fetch''), (''to'', JStr ''parse'')]]),
          (''entry_point'', JStr ''ghost'')]])])
      ''pdf'' []) = None \<and>
   returned_graph (convert_json_to_graphviz graphviz
      (JDict [(''text'', JList [JDict
         [(''nodes'', JList [JDict [(''node_name'', JStr ''fetch'')],
                             JDict [(''node_name'', JStr ''parse'')]]),
          (''edges'', JList [JDict [(''from'', JStr ''fetch''), (''to'', JStr ''parse'')]]),
          (''entry_point'', JStr ''ghost'')]])])
      ''pdf'' [])
     = Some \<lparr>comment = ''ScrapeGraphAI Generated Graph'', format = ''pdf'',
             node_attr = [(''color'', ''lightblue2''), (''style'', ''filled'')],
             body = [NodeStmt (JStr ''fetch'') [], NodeStmt (JStr ''parse'') [],
                     EdgeStmt (JStr ''fetch'') (JStr ''parse'')]\<rparr>"
  by (simp add: convert_json_to_graphviz_def graphviz_def Digraph_def read_config_def
      graph_config_def node_def edge_def edge_step_def append_stmt_def)

text \<open>
  C7, amended. When the entry point is a name that no node entry has, the call does
  not fail: it returns a graph with one node statement per node entry, in order, none
  of them highlighted.
\<close>

theorem ghost_entry_point_highlights_nothing:
  assumes "usable lib fmt"
    and "read_config json_data = Inr (JList ns, JList es, JStr entry)"
    and "nodes_named ns names" and "edges_from_to es E"
    and "entry \<notin> set names"
  shows "\<exists>g. returned_graph (convert_json_to_graphviz lib json_data fmt s) = Some g \<and>
           raised (convert_json_to_graphviz lib json_data fmt s) = None \<and>
           node_calls (body g) = map (\<lambda>n. (JStr n, False)) names"
proof -
  let ?g = "(fresh_graph fmt)\<lparr>body := map (node_stmt (JStr entry)) names @ concat (map edge_stmts E)\<rparr>"
  have g: "returned_graph (convert_json_to_graphviz lib json_data fmt s) = Some ?g"
    and r: "raised (convert_json_to_graphviz lib json_data fmt s) = None"
    by (rule well_formed_result [OF assms(1-4)])+
  have "map (\<lambda>n. (JStr n, n = entry)) names = map (\<lambda>n. (JStr n, False)) names"
    using assms(5) by (induction names) auto
  then have "node_calls (body ?g) = map (\<lambda>n. (JStr n, False)) names"
    by (simp add: node_calls_append node_calls_node_stmts node_calls_edge_stmts)
  with g r show ?thesis by blast
qed

theorem ghost_entry_point_highlights_nothing_witness:
  "\<exists>g. returned_graph (convert_json_to_graphviz graphviz
      (JDict [(''text'', JList [JDict
         [(''nodes'', JList [JDict [(''node_name'', JStr ''fetch'')],
                             JDict [(''node_name'', JStr ''parse'')]]),
          (''edges'', JList [JDict [(''from'', JStr ''fetch''), (''to'', JStr ''parse'')]]),
          (''entry_point'', JStr ''ghost'')]])])
      ''pdf'' []) = Some g \<and>
    node_calls (body g) = [(JStr ''fetch'', False), (JStr ''parse'', False)]"
proof -
  let ?ns = "[JDict [(''node_name'', JStr ''fetch'')], JDict [(''node_name'', JStr ''parse'')]]"
  let ?es = "[JDict [(''from'', JStr ''fetch''), (''to'', JStr ''parse'')]]"
  let ?d = "JDict [(''text'', JList [JDict
               [(''nodes'', JList ?ns), (''edges'', JList ?es), (''entry_point'', JStr ''ghost'')]])]"
  have u: "usable graphviz ''pdf''"
    by (simp add: usable_def graphviz_def)
  have r: "read_config ?d = Inr (JList ?ns, JList ?es, JStr ''ghost'')"
    by (simp add: read_config_def graph_config_def)
  have n: "nodes_named ?ns [''fetch'', ''parse'']"
    by (simp add: nodes_named_def)
  have e: "edges_from_to ?es [(''fetch'', One ''parse'')]"
    by (simp add: edges_from_to_def)
  have g: "''ghost'' \<notin> set [''fetch'', ''parse'']"
    by simp
  show ?thesis
    using ghost_entry_point_highlights_nothing [OF u r n e g, of "[]"] by auto
qed

text \<open>
  C8. The call checks nothing about the description: whatever the input and the library,
  an error it raises is never one of the validation errors; and on a description whose
  entries are well formed it returns a graph whether or not the entry point and the
  end points of the edges are names of node entries.
\<close>

theorem rendering_raises_no_validation_error:
  "(\<forall>e. raised (convert_json_to_graphviz lib json_data fmt s) = Some e
        \<longrightarrow> \<not> is_validation_error e) \<and>
   (usable lib fmt \<and> read_config json_data = Inr (JList ns, JList es, entry_point) \<and>
    nodes_named ns names \<and> edges_from_to es E
      \<longrightarrow> raised (convert_json_to_graphviz lib json_data fmt s) = None \<and>
          returned_graph (convert_json_to_graphviz lib json_data fmt s) \<noteq> None)"
proof (intro conjI allI impI)
  fix e
  assume "raised (convert_json_to_graphviz lib json_data fmt s) = Some e"
  then show "\<not> is_validation_error e"
    by (rule raised_no_validation_error)
next
  assume a: "usable lib fmt \<and> read_config json_data = Inr (JList ns, JList es, entry_point) \<and>
    nodes_named ns names \<and> edges_from_to es E"
  then have u: "usable lib fmt"
    and r: "read_config json_data = Inr (JList ns, JList es, entry_point)"
    and n: "nodes_named ns names" and e: "edges_from_to es E"
    by simp_all
  show "raised (convert_json_to_graphviz lib json_data fmt s) = None"
    by (rule well_formed_result(2) [OF u r n e])
  show "returned_graph (convert_json_to_graphviz lib json_data fmt s) \<noteq> None"
    by (simp add: well_formed_result(1) [OF u r n e])
qed

theorem rendering_raises_no_validation_error_witness:
  "raised (convert_json_to_graphviz graphviz
      (JDict [(''text'', JList [JDict
         [(''nodes'', JList [JDict [(''node_name'', JStr ''fetch'')]]),
          (''edges'', JList [JDict [(''from'', JStr ''nowhere''), (''to'', JStr ''ghost'')]]),
          (''entry_point'', JStr ''phantom'')]])])
      ''pdf'' []) = None \<and>
   returned_graph (convert_json_to_graphviz graphviz
      (JDict [(''text'', JList [JDict
         [(''nodes'', JList [JDict [(''node_name'', JStr ''fetch'')]]),
          (''edges'', JList [JDict [(''from'', JStr ''nowhere''), (''to'', JStr ''ghost'')]]),
          (''entry_point'', JStr ''phantom'')]])])
      ''pdf'' []) \<noteq> None"
proof -
  let ?ns = "[JDict [(''node_name'', JStr ''fetch'')]]"
  let ?es = "[JDict [(''from'', JStr ''nowhere''), (''to'', JStr ''ghost'')]]"
  let ?d = "JDict [(''text'', JList [JDict
               [(''nodes'', JList ?ns), (''edges'', JList ?es), (''entry_point'', JStr ''phantom'')]])]"
  have u: "usable graphviz ''pdf''"
    by (simp add: usable_def graphviz_def)
  have r: "read_config ?d = Inr (JList ?ns, JList ?es, JStr ''phantom'')"
    by (simp add: read_config_def graph_config_def)
  have n: "nodes_named ?ns [''fetch'']"
    by (simp add: nodes_named_def)
  have e: "edges_from_to ?es [(''nowhere'', One ''ghost'')]"
    by (simp add: edges_from_to_def)
  show ?thesis
    using rendering_raises_no_validation_error
      [of graphviz ?d "''pdf''" "[]" ?ns ?es "JStr ''phantom''" "[''fetch'']"
          "[(''nowhere'', One ''ghost'')]"] u r n e
    by blast
qed

text \<open>
  C9. The call is a function of its input: started in any two stores it raises the same
  error or returns graphs with the same content, and creates objects with the same
  content. It changes no object that was in the store before it, so a second call on
  the same input leaves the graph the first one returned as it was, and returns an equal
  one. The input is a value of the model, which no operation of the source writes to.
\<close>

theorem conversion_is_deterministic_and_changes_nothing_else:
  "take (length s) (snd (convert_json_to_graphviz lib json_data fmt s)) = s \<and>
   raised (convert_json_to_graphviz lib json_data fmt s')
     = raised (convert_json_to_graphviz lib json_data fmt s) \<and>
   returned_graph (convert_json_to_graphviz lib json_data fmt s')
     = returned_graph (convert_json_to_graphviz lib json_data fmt s) \<and>
   created s' (convert_json_to_graphviz lib json_data fmt s')
     = created s (convert_json_to_graphviz lib json_data fmt s) \<and>
   returned_graph
     (fst (convert_json_to_graphviz lib json_data fmt s),
      snd (convert_json_to_graphviz lib json_data fmt
             (snd (convert_json_to_graphviz lib json_data fmt s))))
     = returned_graph (convert_json_to_graphviz lib json_data fmt s)"
  using convert_any [of lib json_data fmt]
proof (elim disjE exE conjE)
  fix x
  assume "\<forall>s. convert_json_to_graphviz lib json_data fmt s = (Raised x, s)"
  then show ?thesis by (simp add: created_def)
next
  fix x sts
  assume "\<forall>s. convert_json_to_graphviz lib json_data fmt s
           = (Raised x, s @ [(fresh_graph fmt)\<lparr>body := sts\<rparr>])"
  then show ?thesis by (simp add: created_def)
next
  fix sts
  assume "\<forall>s. convert_json_to_graphviz lib json_data fmt s
           = (Returned (length s), s @ [(fresh_graph fmt)\<lparr>body := sts\<rparr>])"
  then show ?thesis by (simp add: created_def nth_append)
qed

theorem conversion_is_deterministic_and_changes_nothing_else_witness:
  "returned_graph (convert_json_to_graphviz graphviz
      (JDict [(''text'', JList [JDict
         [(''nodes'', JList [JDict [(''node_name'', JStr ''fetch'')]]),
          (''entry_point'', JStr ''fetch'')]])])
      ''pdf''
      (snd (convert_json_to_graphviz graphviz
         (JDict [(''text'', JList [JDict
            [(''nodes'', JList [JDict [(''node_name'', JStr ''fetch'')]]),
             (''entry_point'', JStr ''fetch'')]])])
         ''pdf'' [])))
   = returned_graph (convert_json_to_graphviz graphviz
      (JDict [(''text'', JList [JDict
         [(''nodes'', JList [JDict [(''node_name'', JStr ''fetch'')]]),
          (''entry_point'', JStr ''fetch'')]])])
      ''pdf'' [])"
  using conversion_is_deterministic_and_changes_nothing_else
    [of "[]" graphviz "JDict [(''text'', JList [JDict
         [(''nodes'', JList [JDict [(''node_name'', JStr ''fetch'')]]),
          (''entry_point'', JStr ''fetch'')]])]" "''pdf''"
        "snd (convert_json_to_graphviz graphviz
         (JDict [(''text'', JList [JDict
            [(''nodes'', JList [JDict [(''node_name'', JStr ''fetch'')]]),
             (''entry_point'', JStr ''fetch'')]])])
         ''pdf'' [])"]
  by blast

text \<open>
  C10, as the claim states it, fails: the configuration \<^verbatim>\<open>{"edges": [{"to": "b"}]}\<close> has
  neither \<^verbatim>\<open>"nodes"\<close> nor \<^verbatim>\<open>"entry_point"\<close>, and the call raises \<open>KeyError\<close> at
  \<^verbatim>\<open>edge["from"]\<close>; no graph is returned.
\<close>

theorem missing_keys_counterexample:
  "raised (convert_json_to_graphviz graphviz
      (JDict [(''text'', JList [JDict
         [(''edges'', JList [JDict [(''to'', JStr ''b'')]])]])])
      ''pdf'' []) = Some KeyError \<and>
   returned_graph (convert_json_to_graphviz graphviz
      (JDict [(''text'', JList [JDict
         [(''edges'', JList [JDict [(''to'', JStr ''b'')]])]])])
      ''pdf'' []) = None"
  by (simp add: convert_json_to_graphviz_def graphviz_def Digraph_def read_config_def
      graph_config_def node_def edge_def edge_step_def append_stmt_def)

text \<open>
  C10, amended. Let the graph configuration be a dict. A missing \<^verbatim>\<open>"nodes"\<close>,
  \<^verbatim>\<open>"edges"\<close> or \<^verbatim>\<open>"entry_point"\<close> is read as \<^verbatim>\<open>[]\<close>, \<^verbatim>\<open>[]\<close> or \<^verbatim>\<open>None\<close>: the call
  does exactly what it does on the configuration with that key and that value written
  in, whatever the rest of the input. When moreover the library is usable and the
  entries that are there are well formed, the call raises nothing and returns a graph on
  which \<^verbatim>\<open>node\<close> was called once per node entry, in order, highlighted where the name
  equals the entry point, and \<^verbatim>\<open>edge\<close> once per target of each edge entry, in order:
  no node call when \<^verbatim>\<open>"nodes"\<close> is missing, no edge call when \<^verbatim>\<open>"edges"\<close> is missing,
  no highlighted node when \<^verbatim>\<open>"entry_point"\<close> is missing.
\<close>

theorem missing_keys_take_defaults:
  assumes "graph_config json_data = Inr (JDict cfg)"
  shows
    "(\<forall>k v d'.
        map_of cfg k = None \<and>
        (k, v) \<in> set [(''nodes'', JList []), (''edges'', JList []), (''entry_point'', JNull)] \<and>
        graph_config d' = Inr (JDict (cfg @ [(k, v)]))
        \<longrightarrow> convert_json_to_graphviz lib d' fmt s = convert_json_to_graphviz lib json_data fmt s) \<and>
     (usable lib fmt \<and>
      get_method (JDict cfg) ''nodes'' (JList []) = Inr (JList ns) \<and> nodes_named ns names \<and>
      get_method (JDict cfg) ''edges'' (JList []) = Inr (JList es) \<and> edges_from_to es E
      \<longrightarrow> (\<exists>g. returned_graph (convert_json_to_graphviz lib json_data fmt s) = Some g \<and>
             raised (convert_json_to_graphviz lib json_data fmt s) = None \<and>
             node_calls (body g)
               = map (\<lambda>n. (JStr n, case map_of cfg ''entry_point'' of
                                       None \<Rightarrow> False
                                     | Some ep \<Rightarrow> py_eq (JStr n) ep)) names \<and>
             edge_calls (body g)
               = concat (map (\<lambda>ft. map (\<lambda>t. (JStr (fst ft), JStr t)) (targets (snd ft))) E) \<and>
             (map_of cfg ''nodes'' = None \<longrightarrow> names = [] \<and> node_calls (body g) = []) \<and>
             (map_of cfg ''edges'' = None \<longrightarrow> E = [] \<and> edge_calls (body g) = []) \<and>
             (map_of cfg ''entry_point'' = None \<longrightarrow> filter highlighted (body g) = [])))"
proof (rule conjI)
  show "\<forall>k v d'.
        map_of cfg k = None \<and>
        (k, v) \<in> set [(''nodes'', JList []), (''edges'', JList []), (''entry_point'', JNull)] \<and>
        graph_config d' = Inr (JDict (cfg @ [(k, v)]))
        \<longrightarrow> convert_json_to_graphviz lib d' fmt s = convert_json_to_graphviz lib json_data fmt s"
  proof (intro allI impI)
    fix k v d'
    assume a: "map_of cfg k = None \<and>
        (k, v) \<in> set [(''nodes'', JList []), (''edges'', JList []), (''entry_point'', JNull)] \<and>
        graph_config d' = Inr (JDict (cfg @ [(k, v)]))"
    then have 1: "map_of cfg k = None"
      and 2: "(k, v) \<in> set [(''nodes'', JList []), (''edges'', JList []), (''entry_point'', JNull)]"
      and 3: "graph_config d' = Inr (JDict (cfg @ [(k, v)]))"
      by blast+
    show "convert_json_to_graphviz lib d' fmt s = convert_json_to_graphviz lib json_data fmt s"
      by (rule convert_read_config_cong) (rule read_config_default_written [OF assms 3 1 2])
  qed
next
  let ?conv = "convert_json_to_graphviz lib json_data fmt s"
  let ?ep = "case map_of cfg ''entry_point'' of None \<Rightarrow> JNull | Some v \<Rightarrow> v"
  let ?g = "(fresh_graph fmt)\<lparr>body := map (node_stmt ?ep) names @ concat (map edge_stmts E)\<rparr>"
  let ?hl = "\<lambda>n. (JStr n, case map_of cfg ''entry_point'' of
                           None \<Rightarrow> False | Some ep \<Rightarrow> py_eq (JStr n) ep)"
  let ?Ecalls = "concat (map (\<lambda>ft. map (\<lambda>t. (JStr (fst ft), JStr t)) (targets (snd ft))) E)"
  {
    assume a: "usable lib fmt \<and>
      get_method (JDict cfg) ''nodes'' (JList []) = Inr (JList ns) \<and> nodes_named ns names \<and>
      get_method (JDict cfg) ''edges'' (JList []) = Inr (JList es) \<and> edges_from_to es E"
    then have u: "usable lib fmt"
      and gn: "get_method (JDict cfg) ''nodes'' (JList []) = Inr (JList ns)"
      and n: "nodes_named ns names"
      and ge: "get_method (JDict cfg) ''edges'' (JList []) = Inr (JList es)"
      and e: "edges_from_to es E"
      by blast+
    have rc: "read_config json_data = Inr (JList ns, JList es, ?ep)"
      by (rule read_config_dict [OF assms gn ge])
    have g: "returned_graph ?conv = Some ?g" and r: "raised ?conv = None"
      by (rule well_formed_result [OF u rc n e])+
    have hl: "py_eq (JStr n) ?ep
        = (case map_of cfg ''entry_point'' of None \<Rightarrow> False | Some ep \<Rightarrow> py_eq (JStr n) ep)" for n
      by (simp split: option.splits)
    have "node_calls (body ?g) = map (\<lambda>n. (JStr n, py_eq (JStr n) ?ep)) names"
      by (simp add: node_calls_append node_calls_node_stmts node_calls_edge_stmts
          del: py_eq.simps)
    then have nc: "node_calls (body ?g) = map ?hl names"
      unfolding hl .
    have ec: "edge_calls (body ?g) = ?Ecalls"
      by (simp add: edge_calls_append edge_calls_node_stmts edge_calls_edge_stmts)
    have no_nodes: "names = [] \<and> node_calls (body ?g) = []" if "map_of cfg ''nodes'' = None"
    proof -
      from that gn have "ns = []" by simp
      with n have "names = []" by (simp add: nodes_named_def)
      with nc show ?thesis by simp
    qed
    have no_edges: "E = [] \<and> edge_calls (body ?g) = []" if "map_of cfg ''edges'' = None"
    proof -
      from that ge have "es = []" by simp
      with e have "E = []" by (simp add: edges_from_to_def)
      with ec show ?thesis by simp
    qed
    have no_hl: "filter highlighted (body ?g) = []" if "map_of cfg ''entry_point'' = None"
    proof -
      have "filter highlighted (map (node_stmt JNull) names) = []"
        by (induction names) (auto simp: node_stmt_def)
      moreover have "filter highlighted (concat (map edge_stmts E)) = []"
        by (induction E) (auto simp: edge_stmts_def)
      ultimately show ?thesis using that by simp
    qed
    have "\<exists>g. returned_graph ?conv = Some g \<and> raised ?conv = None \<and>
             node_calls (body g) = map ?hl names \<and> edge_calls (body g) = ?Ecalls \<and>
             (map_of cfg ''nodes'' = None \<longrightarrow> names = [] \<and> node_calls (body g) = []) \<and>
             (map_of cfg ''edges'' = None \<longrightarrow> E = [] \<and> edge_calls (body g) = []) \<and>
             (map_of cfg ''entry_point'' = None \<longrightarrow> filter highlighted (body g) = [])"
    proof (rule exI [of _ ?g], intro conjI)
      show "returned_graph ?conv = Some ?g" by (rule g)
      show "raised ?conv = None" by (rule r)
      show "node_calls (body ?g) = map ?hl names" by (rule nc)
      show "edge_calls (body ?g) = ?Ecalls" by (rule ec)
      show "map_of cfg ''nodes'' = None \<longrightarrow> names = [] \<and> node_calls (body ?g) = []"
        by (rule impI) (rule no_nodes)
      show "map_of cfg ''edges'' = None \<longrightarrow> E = [] \<and> edge_calls (body ?g) = []"
        by (rule impI) (rule no_edges)
      show "map_of cfg ''entry_point'' = None \<longrightarrow> filter highlighted (body ?g) = []"
        by (rule impI) (rule no_hl)
    qed
  }
  then show "usable lib fmt \<and>
      get_method (JDict cfg) ''nodes'' (JList []) = Inr (JList ns) \<and> nodes_named ns names \<and>
      get_method (JDict cfg) ''edges'' (JList []) = Inr (JList es) \<and> edges_from_to es E
      \<longrightarrow> (\<exists>g. returned_graph ?conv = Some g \<and> raised ?conv = None \<and>
             node_calls (body g) = map ?hl names \<and> edge_calls (body g) = ?Ecalls \<and>
             (map_of cfg ''nodes'' = None \<longrightarrow> names = [] \<and> node_calls (body g) = []) \<and>
             (map_of cfg ''edges'' = None \<longrightarrow> E = [] \<and> edge_calls (body g) = []) \<and>
             (map_of cfg ''entry_point'' = None \<longrightarrow> filter highlighted (body g) = []))"
    by (rule impI)
qed

theorem missing_keys_take_defaults_witness:
  "(\<exists>g. returned_graph (convert_json_to_graphviz graphviz
            (JDict [(''text'', JList [JDict
               [(''nodes'', JList [JDict [(''node_name'', JStr ''fetch'')],
                                   JDict [(''node_name'', JStr ''parse'')]])]])])
            ''pdf'' []) = Some g \<and>
        node_calls (body g) = [(JStr ''fetch'', False), (JStr ''parse'', False)] \<and>
        edge_calls (body g) = [] \<and> filter highlighted (body g) = []) \<and>
   convert_json_to_graphviz graphviz
     (JDict [(''text'', JList [JDict
        [(''nodes'', JList [JDict [(''node_name'', JStr ''fetch'')],
                            JDict [(''node_name'', JStr ''parse'')]]),
         (''edges'', JList [])]])])
     ''pdf'' []
   = convert_json_to_graphviz graphviz
       (JDict [(''text'', JList [JDict
          [(''nodes'', JList [JDict [(''node_name'', JStr ''fetch'')],
                              JDict [(''node_name'', JStr ''parse'')]])]])])
       ''pdf'' []"
proof -
  let ?ns = "[JDict [(''node_name'', JStr ''fetch'')], JDict [(''node_name'', JStr ''parse'')]]"
  let ?cfg = "[(''nodes'', JList ?ns)]"
  let ?d = "JDict [(''text'', JList [JDict ?cfg])]"
  let ?w = "JDict [(''text'', JList [JDict [(''nodes'', JList ?ns), (''edges'', JList [])]])]"
  have c: "graph_config ?d = Inr (JDict ?cfg)"
    by (simp add: graph_config_def)
  have hyps: "usable graphviz ''pdf'' \<and>
      get_method (JDict ?cfg) ''nodes'' (JList []) = Inr (JList ?ns) \<and>
      nodes_named ?ns [''fetch'', ''parse''] \<and>
      get_method (JDict ?cfg) ''edges'' (JList []) = Inr (JList []) \<and>
      edges_from_to [] []"
    by (simp add: usable_def graphviz_def nodes_named_def edges_from_to_def)
  have written: "map_of ?cfg ''edges'' = None \<and>
      (''edges'', JList []) \<in> set [(''nodes'', JList []), (''edges'', JList []),
                                   (''entry_point'', JNull)] \<and>
      graph_config ?w = Inr (JDict (?cfg @ [(''edges'', JList [])]))"
    by (simp add: graph_config_def)
  have absent: "map_of ?cfg ''entry_point'' = None" "map_of ?cfg ''edges'' = None"
    by simp_all
  have drawn: "\<exists>g. returned_graph (convert_json_to_graphviz graphviz ?d ''pdf'' []) = Some g \<and>
        node_calls (body g) = [(JStr ''fetch'', False), (JStr ''parse'', False)] \<and>
        edge_calls (body g) = [] \<and> filter highlighted (body g) = []"
    using missing_keys_take_defaults [OF c, where s = "[]", THEN conjunct2, THEN mp, OF hyps]
    unfolding absent option.case by auto
  have same: "convert_json_to_graphviz graphviz ?w ''pdf'' []
      = convert_json_to_graphviz graphviz ?d ''pdf'' []"
    by (rule missing_keys_take_defaults
        [OF c, THEN conjunct1, THEN spec, THEN spec, THEN spec, THEN mp, OF written])
  from drawn same show ?thesis
    by (rule conjI)
qed

end
